theory Spec2Isabelle
  imports Complex_Main "HOL-Library.AList" "HOL-Library.Sublist"
begin

section \<open>Python values and the builtins the client relies on\<close>

text \<open>
  The values that travel through \<^verbatim>\<open>MjapiClient\<close> are what \<^verbatim>\<open>json.loads\<close> produces and
  what \<^verbatim>\<open>json=\<close> accepts: \<^verbatim>\<open>None\<close>, booleans, numbers, strings, lists and dicts.  Python's
  \<^verbatim>\<open>None\<close> and JSON's \<^verbatim>\<open>null\<close> are the same value \<open>JNull\<close>.  Numbers are integers here; a
  dict is the list of its items in insertion order (keys looked up with \<open>map_of\<close>).  A string
  is a list of characters with code points below 256.
\<close>

datatype json =
    JNull
  | JBool bool
  | JNum int
  | JStr string
  | JArr "json list"
  | JObj "(string \<times> json) list"

text \<open>
  The exceptions that can leave a client method.  \<open>RequestException\<close> stands for what the
  transport raises (timeout, connection failure); \<open>JSONDecodeError\<close> is what \<^verbatim>\<open>res.json()\<close>
  raises on a body that is not JSON.  In \<^verbatim>\<open>requests\<close> the latter is a subclass of the former
  (\<open>is_RequestException\<close>), so the \<^verbatim>\<open>except requests.RequestException\<close> handlers catch both.
\<close>

datatype exn =
    RequestException string
  | JSONDecodeError
  | RuntimeError string
  | ValueError string
  | TypeError
  | KeyError string

fun is_RequestException :: "exn \<Rightarrow> bool" where
  "is_RequestException (RequestException _) = True"
| "is_RequestException JSONDecodeError = True"
| "is_RequestException _ = False"

type_synonym 'a result = "exn + 'a"

text \<open>Truth value of a Python object, as \<^verbatim>\<open>if raise_error:\<close> tests it.\<close>

fun truthy :: "json \<Rightarrow> bool" where
  "truthy JNull = False"
| "truthy (JBool b) = b"
| "truthy (JNum n) = (n \<noteq> 0)"
| "truthy (JStr s) = (s \<noteq> [])"
| "truthy (JArr xs) = (xs \<noteq> [])"
| "truthy (JObj kvs) = (kvs \<noteq> [])"

text \<open>
  \<^verbatim>\<open>key in obj\<close> for a string \<^verbatim>\<open>key\<close>: key membership for a dict, element membership for a
  list, substring test for a string, and a \<^verbatim>\<open>TypeError\<close> for \<^verbatim>\<open>None\<close>, booleans and numbers.
\<close>

fun py_contains :: "json \<Rightarrow> string \<Rightarrow> bool result" where
  "py_contains (JObj kvs) k = Inr (map_of kvs k \<noteq> None)"
| "py_contains (JArr xs) k = Inr (JStr k \<in> set xs)"
| "py_contains (JStr s) k = Inr (sublist k s)"
| "py_contains JNull k = Inl TypeError"
| "py_contains (JBool b) k = Inl TypeError"
| "py_contains (JNum n) k = Inl TypeError"

text \<open>
  \<^verbatim>\<open>obj[key]\<close> for a string \<^verbatim>\<open>key\<close>: the value or a \<^verbatim>\<open>KeyError\<close> for a dict; a \<^verbatim>\<open>TypeError\<close>
  for everything else (lists and strings want integer indices, the rest is not
  subscriptable).
\<close>

fun py_getitem :: "json \<Rightarrow> string \<Rightarrow> json result" where
  "py_getitem (JObj kvs) k = (case map_of kvs k of None \<Rightarrow> Inl (KeyError k) | Some v \<Rightarrow> Inr v)"
| "py_getitem _ k = Inl TypeError"

subsection \<open>Formatting: \<^verbatim>\<open>str\<close> and \<^verbatim>\<open>repr\<close>, as the f-strings use them\<close>

definition digit_chars :: string where
  "digit_chars = ''0123456789abcdef''"

fun str_nat :: "nat \<Rightarrow> string" where
  "str_nat n = (if n < 10 then [digit_chars ! n] else str_nat (n div 10) @ [digit_chars ! (n mod 10)])"

declare str_nat.simps [simp del]

definition str_int :: "int \<Rightarrow> string" where
  "str_int i = (if i < 0 then CHR ''-'' # str_nat (nat (- i)) else str_nat (nat i))"

definition hex2 :: "nat \<Rightarrow> string" where
  "hex2 n = [digit_chars ! (n div 16), digit_chars ! (n mod 16)]"

definition squote :: char where "squote = CHR 0x27"
definition dquote :: char where "dquote = CHR 0x22"
definition bslash :: char where "bslash = CHR 0x5C"

text \<open>One character inside \<^verbatim>\<open>repr\<close> of a string quoted with \<open>q\<close>.\<close>

definition repr_char :: "char \<Rightarrow> char \<Rightarrow> string" where
  "repr_char q c =
     (let n = (of_char c :: nat) in
      if c = q \<or> c = bslash then [bslash, c]
      else if n = 9 then [bslash, CHR ''t'']
      else if n = 10 then [bslash, CHR ''n'']
      else if n = 13 then [bslash, CHR ''r'']
      else if n < 32 \<or> n = 127 then bslash # CHR ''x'' # hex2 n
      else if n < 127 then [c]
      else if n \<le> 160 \<or> n = 173 then bslash # CHR ''x'' # hex2 n
      else [c])"

text \<open>
  \<^verbatim>\<open>repr\<close> of a string: double quotes when the string has a single quote and no double
  quote, single quotes otherwise.
\<close>

definition repr_str :: "string \<Rightarrow> string" where
  "repr_str s =
     (let q = (if squote \<in> set s \<and> dquote \<notin> set s then dquote else squote)
      in q # concat (map (repr_char q) s) @ [q])"

fun join_comma :: "string list \<Rightarrow> string" where
  "join_comma [] = []"
| "join_comma [x] = x"
| "join_comma (x # y # ys) = x @ '', '' @ join_comma (y # ys)"

fun py_repr :: "json \<Rightarrow> string" where
  "py_repr JNull = ''None''"
| "py_repr (JBool b) = (if b then ''True'' else ''False'')"
| "py_repr (JNum n) = str_int n"
| "py_repr (JStr s) = repr_str s"
| "py_repr (JArr xs) = ''['' @ join_comma (map py_repr xs) @ '']''"
| "py_repr (JObj kvs) =
     ''{'' @ join_comma (map (\<lambda>kv. repr_str (fst kv) @ '': '' @ py_repr (snd kv)) kvs) @ ''}''"

text \<open>\<^verbatim>\<open>str(v)\<close>, which is what \<^verbatim>\<open>f'{v}'\<close> inserts: a string as it is, anything else as \<^verbatim>\<open>repr\<close>.\<close>

fun py_str :: "json \<Rightarrow> string" where
  "py_str (JStr s) = s"
| "py_str v = py_repr v"

section \<open>The client, the transport and the trace of its effects\<close>

datatype http_method = GET | POST

text \<open>What one call of \<^verbatim>\<open>session.get\<close> or \<^verbatim>\<open>session.post\<close> is given.\<close>

record request =
  meth :: http_method
  url :: string
  json_body :: json
  req_headers :: "(string \<times> string) list"
  req_timeout :: real

text \<open>
  A \<^verbatim>\<open>requests.Response\<close>: the status code, the raw body (\<^verbatim>\<open>res.content\<close>, and \<^verbatim>\<open>res.text\<close>
  when formatted) and the value \<^verbatim>\<open>json.loads\<close> finds in it (\<open>None\<close> when the body is not
  JSON).
\<close>

record response =
  status_code :: int
  content :: string
  decoded :: "json option"

text \<open>\<^verbatim>\<open>res.ok\<close>: \<^verbatim>\<open>raise_for_status\<close> raises for the status codes 400 to 599.\<close>

definition ok :: "response \<Rightarrow> bool" where
  "ok r = (\<not> (400 \<le> status_code r \<and> status_code r < 600))"

text \<open>\<^verbatim>\<open>res.json()\<close>: an empty body never decodes.\<close>

definition res_json :: "response \<Rightarrow> json result" where
  "res_json r =
     (if content r = [] then Inl JSONDecodeError
      else case decoded r of None \<Rightarrow> Inl JSONDecodeError | Some j \<Rightarrow> Inr j)"

text \<open>
  The effects of a call are recorded in a trace: taking the lock, handing a request to the
  session, what came back (a response, or the description of the \<open>RequestException\<close>
  raised), releasing the lock.
\<close>

datatype event =
    Acquire
  | Send request
  | Recv response
  | Failed string
  | Release

text \<open>
  The attributes of \<^verbatim>\<open>MjapiClient\<close>.  The session and the lock are represented by the trace
  of what was done with them.
\<close>

record client =
  base_url :: string
  timeout :: real
  token :: json
  headers :: "(string \<times> string) list"
  trace :: "event list"

text \<open>
  The transport and the server behind it: given everything that happened so far, the
  request just sent included, either a \<open>RequestException\<close> is raised (\<open>Inl\<close>, with its
  description) or a response comes back.
\<close>

type_synonym transport = "event list \<Rightarrow> string + response"

definition init :: "string \<Rightarrow> real \<Rightarrow> client" where
  "init b t = \<lparr>base_url = b, timeout = t, token = JNull, headers = [], trace = []\<rparr>"

definition set_bearer_token :: "client \<Rightarrow> json \<Rightarrow> client" where
  "set_bearer_token c tok =
     c\<lparr>token := tok,
       headers := AList.update ''Authorization'' (''Bearer '' @ py_str tok) (headers c)\<rparr>"

text \<open>
  \<^verbatim>\<open>with self._lock: res = self.session.<method>(...)\<close>: the lock is taken, the request is
  sent, and the lock is released whether a response came back or an exception was raised.
\<close>

definition locked_send :: "transport \<Rightarrow> client \<Rightarrow> request \<Rightarrow> (string + response) \<times> client" where
  "locked_send net c rq =
     (let out = net (trace c @ [Acquire, Send rq]);
          ev = (case out of Inl d \<Rightarrow> Failed d | Inr r \<Rightarrow> Recv r)
      in (out, c\<lparr>trace := trace c @ [Acquire, Send rq, ev, Release]\<rparr>))"

definition process_res :: "response \<Rightarrow> json \<Rightarrow> json result" where
  "process_res res raise_error =
     (if ok res then (if content res \<noteq> [] then res_json res else Inr JNull)
      else case res_json res of
        Inl e \<Rightarrow> Inl e
      | Inr j \<Rightarrow>
          (case py_contains j ''error'' of
             Inl e \<Rightarrow> Inl e
           | Inr True \<Rightarrow>
               (case py_getitem j ''error'' of
                  Inl e \<Rightarrow> Inl e
                | Inr message \<Rightarrow>
                    if truthy raise_error
                    then Inl (RuntimeError (''Error in response '' @ str_int (status_code res)
                                            @ '': '' @ py_str message))
                    else Inr j)
           | Inr False \<Rightarrow>
               Inl (RuntimeError (''Unexpected API response '' @ str_int (status_code res)
                                  @ '': '' @ content res))))"

text \<open>
  The \<^verbatim>\<open>try\<close> of \<^verbatim>\<open>post_req\<close> and \<^verbatim>\<open>get_req\<close>: a \<open>RequestException\<close> from the transport or
  from \<^verbatim>\<open>_process_res\<close> is re-raised when \<^verbatim>\<open>raise_error\<close> is true and becomes \<^verbatim>\<open>None\<close>
  otherwise; any other exception passes through.
\<close>

definition handle_req :: "json \<Rightarrow> string + response \<Rightarrow> json result" where
  "handle_req raise_error out =
     (case (case out of
              Inl d \<Rightarrow> Inl (RequestException d)
            | Inr res \<Rightarrow> process_res res raise_error) of
        Inl e \<Rightarrow>
          if is_RequestException e then (if truthy raise_error then Inl e else Inr JNull)
          else Inl e
      | Inr v \<Rightarrow> Inr v)"

definition post_request :: "client \<Rightarrow> string \<Rightarrow> json \<Rightarrow> request" where
  "post_request c path body =
     \<lparr>meth = POST, url = base_url c @ path, json_body = body,
      req_headers = headers c, req_timeout = timeout c\<rparr>"

definition get_request :: "client \<Rightarrow> string \<Rightarrow> request" where
  "get_request c path =
     \<lparr>meth = GET, url = base_url c @ path, json_body = JNull,
      req_headers = headers c, req_timeout = timeout c\<rparr>"

definition post_req :: "transport \<Rightarrow> client \<Rightarrow> string \<Rightarrow> json \<Rightarrow> json \<Rightarrow> json result \<times> client" where
  "post_req net c path body raise_error =
     (let (out, c') = locked_send net c (post_request c path body)
      in (handle_req raise_error out, c'))"

definition get_req :: "transport \<Rightarrow> client \<Rightarrow> string \<Rightarrow> json \<Rightarrow> json result \<times> client" where
  "get_req net c path raise_error =
     (let (out, c') = locked_send net c (get_request c path)
      in (handle_req raise_error out, c'))"

subsection \<open>Accounts\<close>

definition register :: "transport \<Rightarrow> client \<Rightarrow> json \<Rightarrow> json result \<times> client" where
  "register net c name = post_req net c ''/user/register'' (JObj [(''name'', name)]) (JBool True)"

text \<open>
  The part \<^verbatim>\<open>login\<close> and \<^verbatim>\<open>trial\<close> share, after their POST: keep the \<^verbatim>\<open>id\<close> as token and
  header, or raise.
\<close>

definition save_token :: "json result \<times> client \<Rightarrow> json result \<times> client" where
  "save_token rc =
     (case rc of
        (Inl e, c) \<Rightarrow> (Inl e, c)
      | (Inr res, c) \<Rightarrow>
          (case py_contains res ''id'' of
             Inl e \<Rightarrow> (Inl e, c)
           | Inr True \<Rightarrow>
               (case py_getitem res ''id'' of
                  Inl e \<Rightarrow> (Inl e, c)
                | Inr v \<Rightarrow> (Inr JNull, set_bearer_token (c\<lparr>token := v\<rparr>) v))
           | Inr False \<Rightarrow> (Inl (RuntimeError (''Error login: '' @ py_str res)), c)))"

definition login :: "transport \<Rightarrow> client \<Rightarrow> json \<Rightarrow> json \<Rightarrow> json result \<times> client" where
  "login net c name secret =
     save_token (post_req net c ''/user/login''
                   (JObj [(''name'', name), (''secret'', secret)]) (JBool True))"

definition trial :: "transport \<Rightarrow> client \<Rightarrow> json result \<times> client" where
  "trial net c =
     save_token (post_req net c ''/user/trial''
                   (JObj [(''code'', JStr ''FREE_TRIAL_SPONSORED_BY_MJAPI_DiscordID_9ns4esyx'')])
                   (JBool True))"

definition set_temp_user :: "client \<Rightarrow> json \<Rightarrow> client" where
  "set_temp_user c tok = set_bearer_token (c\<lparr>token := tok\<rparr>) tok"

definition logout :: "transport \<Rightarrow> client \<Rightarrow> json result \<times> client" where
  "logout net c = post_req net c ''/user/logout'' JNull (JBool True)"

subsection \<open>Queries\<close>

text \<open>Subscripting the value a request helper returned, when it returned one.\<close>

definition subscript :: "string \<Rightarrow> json result \<times> client \<Rightarrow> json result \<times> client" where
  "subscript k rc =
     (case rc of
        (Inl e, c) \<Rightarrow> (Inl e, c)
      | (Inr res, c) \<Rightarrow> (py_getitem res k, c))"

definition get_user_info :: "transport \<Rightarrow> client \<Rightarrow> json result \<times> client" where
  "get_user_info net c = get_req net c ''/user'' (JBool True)"

definition list_models :: "transport \<Rightarrow> client \<Rightarrow> json result \<times> client" where
  "list_models net c = subscript ''models'' (get_req net c ''/mjai/list'' (JBool True))"

text \<open>\<^verbatim>\<open>get_usage\<close> and \<^verbatim>\<open>get_limit\<close> call \<^verbatim>\<open>get_req(path, None)\<close>: \<^verbatim>\<open>raise_error\<close> is \<^verbatim>\<open>None\<close>.\<close>

definition get_usage :: "transport \<Rightarrow> client \<Rightarrow> json result \<times> client" where
  "get_usage net c = subscript ''used'' (get_req net c ''/mjai/usage'' JNull)"

definition get_limit :: "transport \<Rightarrow> client \<Rightarrow> json result \<times> client" where
  "get_limit net c = get_req net c ''/mjai/limit'' JNull"

subsection \<open>The bot\<close>

definition start_bot :: "transport \<Rightarrow> client \<Rightarrow> json \<Rightarrow> json \<Rightarrow> json \<Rightarrow> json result \<times> client" where
  "start_bot net c ident bound model =
     post_req net c ''/mjai/start''
       (JObj [(''id'', ident), (''bound'', bound), (''model'', model)]) (JBool True)"

text \<open>
  \<^verbatim>\<open>stop_bot\<close> calls \<^verbatim>\<open>post_req(path, None)\<close>: the \<^verbatim>\<open>None\<close> is the second positional
  parameter of \<^verbatim>\<open>post_req\<close>, which is \<^verbatim>\<open>json\<close>; \<^verbatim>\<open>raise_error\<close> keeps its default \<^verbatim>\<open>True\<close>.
\<close>

definition stop_bot :: "transport \<Rightarrow> client \<Rightarrow> json result \<times> client" where
  "stop_bot net c = post_req net c ''/mjai/stop'' JNull (JBool True)"

text \<open>
  What \<^verbatim>\<open>_post_act\<close> makes of the response, after the lock is released.  The parameter
  \<^verbatim>\<open>_seq\<close> is not used.
\<close>

definition interpret_act :: "response \<Rightarrow> json result" where
  "interpret_act response =
     (if content response \<noteq> [] then
        (case res_json response of
           Inl e \<Rightarrow> Inl e
         | Inr response_json \<Rightarrow>
             if status_code response = 200 then
               (case py_contains response_json ''act'' of
                  Inl e \<Rightarrow> Inl e
                | Inr True \<Rightarrow> py_getitem response_json ''act''
                | Inr False \<Rightarrow> Inr JNull)
             else
               (case py_contains response_json ''error'' of
                  Inl e \<Rightarrow> Inl e
                | Inr True \<Rightarrow> Inr response_json
                | Inr False \<Rightarrow>
                    Inl (ValueError (''status code '' @ str_int (status_code response)
                                     @ ''; '' @ content response))))
      else if status_code response \<noteq> 200 then
        Inl (ValueError (''status code '' @ str_int (status_code response)))
      else Inr JNull)"

definition post_act :: "transport \<Rightarrow> client \<Rightarrow> string \<Rightarrow> json \<Rightarrow> json \<Rightarrow> json result \<times> client" where
  "post_act net c path seq actions =
     (let (out, c') = locked_send net c (post_request c path actions)
      in (case out of
            Inl d \<Rightarrow> (Inl (RequestException d), c')
          | Inr response \<Rightarrow> (interpret_act response, c')))"

definition act :: "transport \<Rightarrow> client \<Rightarrow> json \<Rightarrow> json \<Rightarrow> json result \<times> client" where
  "act net c seq data =
     post_act net c ''/mjai/act'' seq (JObj [(''seq'', seq), (''data'', data)])"

definition batch :: "transport \<Rightarrow> client \<Rightarrow> json list \<Rightarrow> json result \<times> client" where
  "batch net c actions =
     (if length actions = 0 then (Inr JNull, c)
      else case py_getitem (last actions) ''seq'' of
        Inl e \<Rightarrow> (Inl e, c)
      | Inr seq \<Rightarrow> post_act net c ''/mjai/batch'' seq (JArr actions))"

section \<open>What a call adds to the trace\<close>

definition new_events :: "client \<Rightarrow> client \<Rightarrow> event list" where
  "new_events c c' = drop (length (trace c)) (trace c')"

text \<open>The response \<open>r\<close> came back during the call that led from \<open>c\<close> to the outcome \<open>rc\<close>.\<close>

definition received :: "client \<Rightarrow> json result \<times> client \<Rightarrow> response \<Rightarrow> bool" where
  "received c rc r = (Recv r \<in> set (new_events c (snd rc)))"

text \<open>The transport answers the request \<open>rq\<close>, sent by the client in state \<open>c\<close>, with \<open>r\<close>.\<close>

definition answers :: "transport \<Rightarrow> client \<Rightarrow> request \<Rightarrow> response \<Rightarrow> bool" where
  "answers net c rq r = (net (trace c @ [Acquire, Send rq]) = Inr r)"

text \<open>The envelope \<^verbatim>\<open>{'seq': seq, 'data': data}\<close> that \<^verbatim>\<open>act\<close> builds.\<close>

definition envelope :: "json \<Rightarrow> json \<Rightarrow> json" where
  "envelope seq data = JObj [(''seq'', seq), (''data'', data)]"

section \<open>The operations of the client, as data\<close>

text \<open>One value per public method that a caller can invoke on a client.\<close>

datatype call =
    Register json
  | Login json json
  | Trial
  | SetTempUser json
  | SetBearerToken json
  | GetUserInfo
  | Logout
  | ListModels
  | GetUsage
  | GetLimit
  | StartBot json json json
  | Act json json
  | Batch "json list"
  | StopBot

text \<open>Running one call, and a sequence of calls whatever each of them returns or raises.\<close>

fun run_call :: "transport \<Rightarrow> client \<Rightarrow> call \<Rightarrow> json result \<times> client" where
  "run_call net c (Register name) = register net c name"
| "run_call net c (Login name secret) = login net c name secret"
| "run_call net c Trial = trial net c"
| "run_call net c (SetTempUser tok) = (Inr JNull, set_temp_user c tok)"
| "run_call net c (SetBearerToken tok) = (Inr JNull, set_bearer_token c tok)"
| "run_call net c GetUserInfo = get_user_info net c"
| "run_call net c Logout = logout net c"
| "run_call net c ListModels = list_models net c"
| "run_call net c GetUsage = get_usage net c"
| "run_call net c GetLimit = get_limit net c"
| "run_call net c (StartBot ident bound model) = start_bot net c ident bound model"
| "run_call net c (Act seq data) = act net c seq data"
| "run_call net c (Batch actions) = batch net c actions"
| "run_call net c StopBot = stop_bot net c"

text \<open>The calls that write the token and the \<^verbatim>\<open>Authorization\<close> header.\<close>

fun sets_credentials :: "call \<Rightarrow> bool" where
  "sets_credentials (Login name secret) = True"
| "sets_credentials Trial = True"
| "sets_credentials (SetTempUser tok) = True"
| "sets_credentials (SetBearerToken tok) = True"
| "sets_credentials _ = False"

text \<open>
  The call \<open>x\<close>, made on the client in state \<open>c\<close>, writes the token and the header:
  \<^verbatim>\<open>set_temp_user\<close> and \<^verbatim>\<open>set_bearer_token\<close> always do, \<^verbatim>\<open>login\<close> and \<^verbatim>\<open>trial\<close> do when they
  return and do not when they raise.
\<close>

definition sets_credentials_now :: "transport \<Rightarrow> client \<Rightarrow> call \<Rightarrow> bool" where
  "sets_credentials_now net c x =
     (sets_credentials x \<and> (case fst (run_call net c x) of Inl e \<Rightarrow> False | Inr v \<Rightarrow> True))"

text \<open>No call of the sequence, run from \<open>c\<close>, writes the token or the header.\<close>

fun credentials_kept :: "transport \<Rightarrow> client \<Rightarrow> call list \<Rightarrow> bool" where
  "credentials_kept net c [] = True"
| "credentials_kept net c (x # xs) =
     (\<not> sets_credentials_now net c x \<and> credentials_kept net (snd (run_call net c x)) xs)"

fun run_calls :: "transport \<Rightarrow> client \<Rightarrow> call list \<Rightarrow> client" where
  "run_calls net c [] = c"
| "run_calls net c (x # xs) = run_calls net (snd (run_call net c x)) xs"

text \<open>What ends a round trip: a response, or the exception the transport raised.\<close>

fun is_reply :: "event \<Rightarrow> bool" where
  "is_reply (Recv r) = True"
| "is_reply (Failed d) = True"
| "is_reply _ = False"

text \<open>The events a call adds to the trace.\<close>

definition call_events :: "transport \<Rightarrow> client \<Rightarrow> call \<Rightarrow> event list" where
  "call_events net c x = new_events c (snd (run_call net c x))"

text \<open>
  Nothing, or one round trip under the lock that carries the headers the client had when
  the call began.
\<close>

definition round_trip :: "client \<Rightarrow> event list \<Rightarrow> bool" where
  "round_trip c evs =
     (evs = [] \<or>
      (\<exists>rq ev. evs = [Acquire, Send rq, ev, Release] \<and> is_reply ev \<and> req_headers rq = headers c))"

section \<open>Threads that share one client\<close>

text \<open>
  Several threads call the client.  What matters of a thread is the sequence of events its
  calls perform (\<open>api_program\<close>: the events of any calls, against any server, in any state
  of the client).  The threads share the lock: \<^verbatim>\<open>threading.Lock\<close> is free or taken,
  \<open>Acquire\<close> waits while it is taken, \<open>Release\<close> frees it.  A step of the system is the next
  event of one thread that can move; the log keeps the interleaving.
\<close>

record system =
  locked :: bool
  todo :: "nat \<Rightarrow> event list"
  log :: "(nat \<times> event) list"

text \<open>What a thread may have to do: the events of one call after another.\<close>

inductive api_program :: "event list \<Rightarrow> bool" where
  finished: "api_program []"
| call: "api_program p \<Longrightarrow> api_program (call_events net c x @ p)"

text \<open>Thread \<open>t\<close> can move unless it is done, or wants the lock while the lock is taken.\<close>

definition can_step :: "system \<Rightarrow> nat \<Rightarrow> bool" where
  "can_step s t = (case todo s t of [] \<Rightarrow> False | e # es \<Rightarrow> e \<noteq> Acquire \<or> \<not> locked s)"

text \<open>
  Thread \<open>t\<close> performs its next event: \<open>Acquire\<close> takes the lock, \<open>Release\<close> frees it, the
  other events leave it alone; the event goes to the log.
\<close>

definition perform :: "nat \<Rightarrow> system \<Rightarrow> system" where
  "perform t s =
     (case todo s t of
        [] \<Rightarrow> s
      | e # es \<Rightarrow>
          \<lparr>locked = (if e = Acquire then True else if e = Release then False else locked s),
           todo = (todo s)(t := es),
           log = log s @ [(t, e)]\<rparr>)"

text \<open>One step of some thread, and the states a run can reach.\<close>

inductive step :: "system \<Rightarrow> system \<Rightarrow> bool" where
  "can_step s t \<Longrightarrow> step s (perform t s)"

inductive runs :: "system \<Rightarrow> system \<Rightarrow> bool" where
  start: "runs s s"
| further: "runs s s' \<Longrightarrow> step s' s'' \<Longrightarrow> runs s s''"

text \<open>At the start the lock is free, nothing has happened, every thread is between calls.\<close>

definition initial :: "system \<Rightarrow> bool" where
  "initial s = (\<not> locked s \<and> log s = [] \<and> (\<forall>t. api_program (todo s t)))"

text \<open>
  A request of thread \<open>t\<close> is in flight: the last thing the thread did was to send it, and
  neither a response nor an exception has come back yet.
\<close>

definition in_flight :: "system \<Rightarrow> nat \<Rightarrow> bool" where
  "in_flight s t =
     (case rev (filter (\<lambda>p. fst p = t) (log s)) of
        (t', Send rq) # rest \<Rightarrow> True
      | _ \<Rightarrow> False)"

text \<open>The invariant of the system, for the proof of mutual exclusion.\<close>

definition critical :: "event list \<Rightarrow> bool" where
  "critical p = (case p of [] \<Rightarrow> False | e # es \<Rightarrow> e \<noteq> Acquire)"

definition wf_todo :: "event list \<Rightarrow> bool" where
  "wf_todo p =
     (api_program p \<or>
      (\<exists>rq ev q. p = Send rq # ev # Release # q \<and> is_reply ev \<and> api_program q) \<or>
      (\<exists>ev q. p = ev # Release # q \<and> is_reply ev \<and> api_program q) \<or>
      (\<exists>q. p = Release # q \<and> api_program q))"

definition invariant :: "system \<Rightarrow> bool" where
  "invariant s =
     ((\<forall>t. wf_todo (todo s t)) \<and>
      (\<forall>t. in_flight s t \<longrightarrow> (\<exists>ev q. todo s t = ev # Release # q \<and> is_reply ev)) \<and>
      (\<forall>t t'. critical (todo s t) \<and> critical (todo s t') \<longrightarrow> t = t') \<and>
      (\<forall>t. critical (todo s t) \<longrightarrow> locked s))"

subsection \<open>Fixtures for the concrete runs\<close>

text \<open>A stub server that answers every request with the same response.\<close>

definition reply :: "int \<Rightarrow> string \<Rightarrow> json option \<Rightarrow> transport" where
  "reply st body j = (\<lambda>_. Inr \<lparr>status_code = st, content = body, decoded = j\<rparr>)"

text \<open>A transport that times out on every request.\<close>

definition unreachable :: transport where
  "unreachable = (\<lambda>_. Inl ''timed out'')"

definition client0 :: client where
  "client0 = init ''https://mjapi.example'' 5"

definition dahai :: json where
  "dahai = JObj [(''type'', JStr ''dahai''), (''pai'', JStr ''1m'')]"

definition body_act :: string where
  \<open>body_act = ''{"act": {"type": "dahai", "pai": "1m"}}''\<close>

definition body_error :: string where
  \<open>body_error = ''{"error": "rate limited"}''\<close>

definition body_seq :: string where
  \<open>body_seq = ''{"seq": 5}''\<close>

definition body_error_list :: string where
  \<open>body_error_list = ''["error"]''\<close>

definition body_no_bot :: string where
  \<open>body_no_bot = ''{"error": "no bot"}''\<close>

definition no_bot :: json where
  "no_bot = JObj [(''error'', JStr ''no bot'')]"

definition body_bad_secret :: string where
  \<open>body_bad_secret = ''{"error": "bad secret", "code": 17}''\<close>

definition bad_secret :: json where
  "bad_secret = JObj [(''error'', JStr ''bad secret''), (''code'', JNum 17)]"

text \<open>A client that already holds a token.\<close>

definition client1 :: client where
  "client1 = set_temp_user client0 (JStr ''old'')"

definition body_token :: string where
  \<open>body_token = ''{"id": "tok123"}''\<close>

definition tok123 :: json where
  "tok123 = JObj [(''id'', JStr ''tok123'')]"

definition body_seq_act :: string where
  \<open>body_seq_act = ''{"seq": 99, "act": {"type": "dahai", "pai": "1m"}}''\<close>

text \<open>Two threads on one client: one asks for a reaction, the other for the user.\<close>

definition two_threads :: system where
  "two_threads =
     \<lparr>locked = False,
      todo = (\<lambda>t. if t = 0 then call_events (reply 200 [] None) client0 (Act (JNum 1) JNull)
                  else if t = 1 then call_events unreachable client0 GetUserInfo
                  else []),
      log = []\<rparr>"

section \<open>Basic facts about the request helpers\<close>

lemma new_events_same [simp]: "new_events c c = []"
  by (simp add: new_events_def)

lemma new_events_locked_send:
  "new_events c (snd (locked_send net c rq)) =
     [Acquire, Send rq,
      (case net (trace c @ [Acquire, Send rq]) of Inl d \<Rightarrow> Failed d | Inr r \<Rightarrow> Recv r),
      Release]"
  by (simp add: new_events_def locked_send_def Let_def)

lemma fst_locked_send: "fst (locked_send net c rq) = net (trace c @ [Acquire, Send rq])"
  by (simp add: locked_send_def Let_def)

lemma locked_send_frame:
  "base_url (snd (locked_send net c rq)) = base_url c"
  "timeout (snd (locked_send net c rq)) = timeout c"
  "token (snd (locked_send net c rq)) = token c"
  "headers (snd (locked_send net c rq)) = headers c"
  by (simp_all add: locked_send_def Let_def)

lemma received_locked_send:
  "Recv r \<in> set (new_events c (snd (locked_send net c rq))) \<longleftrightarrow>
     fst (locked_send net c rq) = Inr r"
  by (auto simp: new_events_locked_send fst_locked_send split: sum.splits)

lemma post_act_fst:
  "fst (post_act net c path seq body) =
     (case fst (locked_send net c (post_request c path body)) of
        Inl d \<Rightarrow> Inl (RequestException d)
      | Inr r \<Rightarrow> interpret_act r)"
  by (simp add: post_act_def split: prod.splits sum.splits)

lemma post_act_snd:
  "snd (post_act net c path seq body) = snd (locked_send net c (post_request c path body))"
  by (simp add: post_act_def split: prod.splits sum.splits)

lemma post_req_fst:
  "fst (post_req net c path body raise_error) =
     handle_req raise_error (fst (locked_send net c (post_request c path body)))"
  by (simp add: post_req_def split: prod.splits)

lemma post_req_snd:
  "snd (post_req net c path body raise_error) = snd (locked_send net c (post_request c path body))"
  by (simp add: post_req_def split: prod.splits)

lemma get_req_fst:
  "fst (get_req net c path raise_error) =
     handle_req raise_error (fst (locked_send net c (get_request c path)))"
  by (simp add: get_req_def split: prod.splits)

lemma get_req_snd:
  "snd (get_req net c path raise_error) = snd (locked_send net c (get_request c path))"
  by (simp add: get_req_def split: prod.splits)

lemma received_post_act:
  assumes "received c (post_act net c path seq body) r"
  shows "fst (post_act net c path seq body) = interpret_act r"
  using assms by (simp add: received_def post_act_snd post_act_fst received_locked_send)

lemma received_act_batch:
  assumes "call = act net c seq data \<or> call = batch net c actions"
      and "received c call r"
    shows "fst call = interpret_act r"
  using assms
  by (auto simp: act_def batch_def received_post_act split: if_splits sum.splits)
     (auto simp: received_def)

lemma received_reply_act:
  "received c (act (reply st b j) c s d)
     \<lparr>status_code = st, content = b, decoded = j\<rparr>"
  by (simp add: received_def act_def post_act_def locked_send_def reply_def new_events_def)

lemma received_reply_batch:
  "received c (batch (reply st b j) c [envelope s d])
     \<lparr>status_code = st, content = b, decoded = j\<rparr>"
  by (simp add: received_def batch_def envelope_def post_act_def locked_send_def reply_def
        new_events_def)

section \<open>The action query: the six response rules\<close>

lemma received_act_iff:
  "received c (act net c seq data) r \<longleftrightarrow>
     answers net c (post_request c ''/mjai/act'' (envelope seq data)) r"
  by (simp add: received_def act_def post_act_snd received_locked_send fst_locked_send
        answers_def envelope_def)

lemma received_batch_iff:
  "received c (batch net c actions) r \<longleftrightarrow>
     actions \<noteq> [] \<and> (\<exists>s. py_getitem (last actions) ''seq'' = Inr s) \<and>
     answers net c (post_request c ''/mjai/batch'' (JArr actions)) r"
proof (cases "actions = []")
  case True
  then show ?thesis
    by (simp add: batch_def received_def)
next
  case False
  show ?thesis
  proof (cases "py_getitem (last actions) ''seq''")
    case (Inl e)
    with False show ?thesis
      by (simp add: batch_def received_def)
  next
    case (Inr s)
    with False show ?thesis
      by (simp add: batch_def received_def post_act_snd received_locked_send fst_locked_send
            answers_def)
  qed
qed

lemma interpret_act_200:
  assumes "status_code r = 200" and "content r \<noteq> []" and "decoded r = Some j"
  shows "interpret_act r =
           (case j of
              JObj kvs \<Rightarrow> (case map_of kvs ''act'' of Some v \<Rightarrow> Inr v | None \<Rightarrow> Inr JNull)
            | JArr xs \<Rightarrow> if JStr ''act'' \<in> set xs then Inl TypeError else Inr JNull
            | JStr t \<Rightarrow> if sublist ''act'' t then Inl TypeError else Inr JNull
            | _ \<Rightarrow> Inl TypeError)"
  using assms
  by (cases j) (auto simp: interpret_act_def res_json_def split: option.splits)

lemma interpret_act_not_200:
  assumes "status_code r \<noteq> 200" and "content r \<noteq> []" and "decoded r = Some j"
  shows "interpret_act r =
           (case j of
              JObj kvs \<Rightarrow>
                (case map_of kvs ''error'' of
                   Some v \<Rightarrow> Inr j
                 | None \<Rightarrow> Inl (ValueError (''status code '' @ str_int (status_code r)
                                               @ ''; '' @ content r)))
            | JArr xs \<Rightarrow>
                if JStr ''error'' \<in> set xs then Inr j
                else Inl (ValueError (''status code '' @ str_int (status_code r)
                                      @ ''; '' @ content r))
            | JStr t \<Rightarrow>
                if sublist ''error'' t then Inr j
                else Inl (ValueError (''status code '' @ str_int (status_code r)
                                      @ ''; '' @ content r))
            | _ \<Rightarrow> Inl TypeError)"
  using assms
  by (cases j) (auto simp: interpret_act_def res_json_def split: option.splits)

text \<open>
  C1, as the code has it.  \<^verbatim>\<open>act(seq, data)\<close> receives whatever response the transport gives
  to its POST; \<^verbatim>\<open>batch(actions)\<close> does when the list is not empty and the \<^verbatim>\<open>seq\<close> of its last
  element can be read.  Whenever one of them receives a response with status 200: an empty
  body gives \<^verbatim>\<open>None\<close>; a body that is a JSON object gives the value under \<^verbatim>\<open>act\<close> when it has
  that key and \<^verbatim>\<open>None\<close> when it has not; a body that is a JSON list or string gives \<^verbatim>\<open>None\<close>
  when \<^verbatim>\<open>'act'\<close> is not an element of the list, not a substring of the string, and raises
  \<^verbatim>\<open>TypeError\<close> when it is; a body that is \<^verbatim>\<open>null\<close>, a boolean or a number raises \<^verbatim>\<open>TypeError\<close>.
\<close>

theorem act_batch_success:
  "(received c (act net c seq data) r \<longleftrightarrow>
      answers net c (post_request c ''/mjai/act'' (envelope seq data)) r) \<and>
   (received c (batch net c actions) r \<longleftrightarrow>
      actions \<noteq> [] \<and> (\<exists>s. py_getitem (last actions) ''seq'' = Inr s) \<and>
      answers net c (post_request c ''/mjai/batch'' (JArr actions)) r) \<and>
   ((call = act net c seq data \<or> call = batch net c actions) \<and> received c call r \<and>
    status_code r = 200 \<longrightarrow>
      (content r = [] \<longrightarrow> fst call = Inr JNull) \<and>
      (\<forall>j. content r \<noteq> [] \<and> decoded r = Some j \<longrightarrow>
         fst call =
           (case j of
              JObj kvs \<Rightarrow> (case map_of kvs ''act'' of Some v \<Rightarrow> Inr v | None \<Rightarrow> Inr JNull)
            | JArr xs \<Rightarrow> if JStr ''act'' \<in> set xs then Inl TypeError else Inr JNull
            | JStr t \<Rightarrow> if sublist ''act'' t then Inl TypeError else Inr JNull
            | _ \<Rightarrow> Inl TypeError)))"
proof (intro conjI impI allI)
  show "received c (act net c seq data) r \<longleftrightarrow>
      answers net c (post_request c ''/mjai/act'' (envelope seq data)) r"
    by (rule received_act_iff)
  show "received c (batch net c actions) r \<longleftrightarrow>
      actions \<noteq> [] \<and> (\<exists>s. py_getitem (last actions) ''seq'' = Inr s) \<and>
      answers net c (post_request c ''/mjai/batch'' (JArr actions)) r"
    by (rule received_batch_iff)
next
  assume h: "(call = act net c seq data \<or> call = batch net c actions) \<and> received c call r \<and>
    status_code r = 200"
  then have eq: "fst call = interpret_act r"
    using received_act_batch by blast
  {
    assume "content r = []"
    with h eq show "fst call = Inr JNull"
      by (simp add: interpret_act_def)
  }
  {
    fix j assume "content r \<noteq> [] \<and> decoded r = Some j"
    with h eq interpret_act_200 [of r j]
    show "fst call =
           (case j of
              JObj kvs \<Rightarrow> (case map_of kvs ''act'' of Some v \<Rightarrow> Inr v | None \<Rightarrow> Inr JNull)
            | JArr xs \<Rightarrow> if JStr ''act'' \<in> set xs then Inl TypeError else Inr JNull
            | JStr t \<Rightarrow> if sublist ''act'' t then Inl TypeError else Inr JNull
            | _ \<Rightarrow> Inl TypeError)"
      by simp
  }
qed

text \<open>
  The rules at work on a stub: \<^verbatim>\<open>act\<close> and a two-element \<^verbatim>\<open>batch\<close> on a 200 with a reaction,
  \<^verbatim>\<open>batch\<close> on a 200 with an empty body, \<^verbatim>\<open>act\<close> on a 200 whose object has no \<^verbatim>\<open>act\<close>, and
  \<^verbatim>\<open>act\<close> on a 200 whose body is an empty list.
\<close>

theorem act_batch_success_witness:
  "received client0
     (batch (reply 200 body_act (Some (JObj [(''act'', dahai)]))) client0
        [envelope (JNum 4) JNull, envelope (JNum 5) (JStr ''x'')])
     \<lparr>status_code = 200, content = body_act, decoded = Some (JObj [(''act'', dahai)])\<rparr>
   \<and> fst (batch (reply 200 body_act (Some (JObj [(''act'', dahai)]))) client0
            [envelope (JNum 4) JNull, envelope (JNum 5) (JStr ''x'')])
       = Inr dahai
   \<and> fst (act (reply 200 body_act (Some (JObj [(''act'', dahai)]))) client0 (JNum 5) (JStr ''x''))
       = Inr dahai
   \<and> fst (batch (reply 200 [] None) client0 [envelope (JNum 5) (JStr ''x'')]) = Inr JNull
   \<and> fst (act (reply 200 body_seq (Some (JObj [(''seq'', JNum 5)]))) client0 (JNum 5) (JStr ''x''))
       = Inr JNull
   \<and> fst (act (reply 200 ''[]'' (Some (JArr []))) client0 (JNum 5) (JStr ''x'')) = Inr JNull"
proof -
  let ?two = "[envelope (JNum 4) JNull, envelope (JNum 5) (JStr ''x'')]"
  let ?netA = "reply 200 body_act (Some (JObj [(''act'', dahai)]))"
  let ?rA = "\<lparr>status_code = 200, content = body_act, decoded = Some (JObj [(''act'', dahai)])\<rparr>"
  note t1 = act_batch_success [of client0 ?netA "JNum 5" "JStr ''x''" ?rA ?two
      "batch ?netA client0 ?two"]
  have rec1: "received client0 (batch ?netA client0 ?two) ?rA"
    using t1 by (simp add: answers_def reply_def envelope_def)
  with t1 have 1: "fst (batch ?netA client0 ?two) = Inr dahai"
    by (simp add: body_act_def)
  note t2 = act_batch_success [of client0 ?netA "JNum 5" "JStr ''x''" ?rA ?two
      "act ?netA client0 (JNum 5) (JStr ''x'')"]
  have "received client0 (act ?netA client0 (JNum 5) (JStr ''x'')) ?rA"
    using t2 by (simp add: answers_def reply_def)
  with t2 have 2: "fst (act ?netA client0 (JNum 5) (JStr ''x'')) = Inr dahai"
    by (simp add: body_act_def)
  let ?netE = "reply 200 [] None"
  let ?rE = "\<lparr>status_code = 200, content = [], decoded = None\<rparr>"
  let ?one = "[envelope (JNum 5) (JStr ''x'')]"
  note t3 = act_batch_success [of client0 ?netE "JNum 5" "JStr ''x''" ?rE ?one
      "batch ?netE client0 ?one"]
  have "received client0 (batch ?netE client0 ?one) ?rE"
    using t3 by (simp add: answers_def reply_def envelope_def)
  with t3 have 3: "fst (batch ?netE client0 ?one) = Inr JNull"
    by simp
  let ?netS = "reply 200 body_seq (Some (JObj [(''seq'', JNum 5)]))"
  let ?rS = "\<lparr>status_code = 200, content = body_seq, decoded = Some (JObj [(''seq'', JNum 5)])\<rparr>"
  note t4 = act_batch_success [of client0 ?netS "JNum 5" "JStr ''x''" ?rS ?one
      "act ?netS client0 (JNum 5) (JStr ''x'')"]
  have "received client0 (act ?netS client0 (JNum 5) (JStr ''x'')) ?rS"
    using t4 by (simp add: answers_def reply_def)
  with t4 have 4: "fst (act ?netS client0 (JNum 5) (JStr ''x'')) = Inr JNull"
    by (simp add: body_seq_def)
  let ?netL = "reply 200 ''[]'' (Some (JArr []))"
  let ?rL = "\<lparr>status_code = 200, content = ''[]'', decoded = Some (JArr [])\<rparr>"
  note t5 = act_batch_success [of client0 ?netL "JNum 5" "JStr ''x''" ?rL ?one
      "act ?netL client0 (JNum 5) (JStr ''x'')"]
  have "received client0 (act ?netL client0 (JNum 5) (JStr ''x'')) ?rL"
    using t5 by (simp add: answers_def reply_def)
  with t5 have 5: "fst (act ?netL client0 (JNum 5) (JStr ''x'')) = Inr JNull"
    by simp
  from rec1 1 2 3 4 5 show ?thesis
    by simp
qed

text \<open>
  Where C1 as it is written fails: a 200 whose body is the JSON \<^verbatim>\<open>null\<close>, or the JSON number
  5.  The body is not empty, it is JSON and it has no key \<^verbatim>\<open>act\<close>, yet the call does not
  return \<^verbatim>\<open>None\<close>: \<^verbatim>\<open>'act' in response_json\<close> raises \<^verbatim>\<open>TypeError\<close>.
\<close>

theorem act_scalar_body_counterexample:
  "fst (act (reply 200 ''null'' (Some JNull)) client0 (JNum 5) (JStr ''x'')) = Inl TypeError
   \<and> fst (act (reply 200 ''5'' (Some (JNum 5))) client0 (JNum 5) (JStr ''x'')) = Inl TypeError
   \<and> fst (act (reply 200 ''null'' (Some JNull)) client0 (JNum 5) (JStr ''x'')) \<noteq> Inr JNull"
  by (simp add: act_def post_act_def locked_send_def reply_def interpret_act_def res_json_def)

text \<open>
  C2, as the code has it.  Whenever \<^verbatim>\<open>act(seq, data)\<close> or \<^verbatim>\<open>batch(actions)\<close> receives a
  response whose status is not 200: an empty body raises the \<^verbatim>\<open>ValueError\<close> that carries the
  status code only; a body that is a JSON object with the key \<^verbatim>\<open>error\<close> is returned whole,
  nothing is raised, and one without that key raises the \<^verbatim>\<open>ValueError\<close> that carries the
  status code and the raw text; a body that is a JSON list or string is returned whole when
  \<^verbatim>\<open>'error'\<close> is an element of the list, a substring of the string, and raises that
  \<^verbatim>\<open>ValueError\<close> when it is not; a body that is \<^verbatim>\<open>null\<close>, a boolean or a number raises
  \<^verbatim>\<open>TypeError\<close>.
\<close>

theorem act_batch_failure:
  "(received c (act net c seq data) r \<longleftrightarrow>
      answers net c (post_request c ''/mjai/act'' (envelope seq data)) r) \<and>
   (received c (batch net c actions) r \<longleftrightarrow>
      actions \<noteq> [] \<and> (\<exists>s. py_getitem (last actions) ''seq'' = Inr s) \<and>
      answers net c (post_request c ''/mjai/batch'' (JArr actions)) r) \<and>
   ((call = act net c seq data \<or> call = batch net c actions) \<and> received c call r \<and>
    status_code r \<noteq> 200 \<longrightarrow>
      (content r = [] \<longrightarrow>
         fst call = Inl (ValueError (''status code '' @ str_int (status_code r)))) \<and>
      (\<forall>j. content r \<noteq> [] \<and> decoded r = Some j \<longrightarrow>
         fst call =
           (case j of
              JObj kvs \<Rightarrow>
                (case map_of kvs ''error'' of
                   Some v \<Rightarrow> Inr j
                 | None \<Rightarrow> Inl (ValueError (''status code '' @ str_int (status_code r)
                                               @ ''; '' @ content r)))
            | JArr xs \<Rightarrow>
                if JStr ''error'' \<in> set xs then Inr j
                else Inl (ValueError (''status code '' @ str_int (status_code r)
                                      @ ''; '' @ content r))
            | JStr t \<Rightarrow>
                if sublist ''error'' t then Inr j
                else Inl (ValueError (''status code '' @ str_int (status_code r)
                                      @ ''; '' @ content r))
            | _ \<Rightarrow> Inl TypeError)))"
proof (intro conjI impI allI)
  show "received c (act net c seq data) r \<longleftrightarrow>
      answers net c (post_request c ''/mjai/act'' (envelope seq data)) r"
    by (rule received_act_iff)
  show "received c (batch net c actions) r \<longleftrightarrow>
      actions \<noteq> [] \<and> (\<exists>s. py_getitem (last actions) ''seq'' = Inr s) \<and>
      answers net c (post_request c ''/mjai/batch'' (JArr actions)) r"
    by (rule received_batch_iff)
next
  assume h: "(call = act net c seq data \<or> call = batch net c actions) \<and> received c call r \<and>
    status_code r \<noteq> 200"
  then have eq: "fst call = interpret_act r"
    using received_act_batch by blast
  {
    assume "content r = []"
    with h eq show "fst call = Inl (ValueError (''status code '' @ str_int (status_code r)))"
      by (simp add: interpret_act_def)
  }
  {
    fix j assume "content r \<noteq> [] \<and> decoded r = Some j"
    with h eq interpret_act_not_200 [of r j]
    show "fst call =
           (case j of
              JObj kvs \<Rightarrow>
                (case map_of kvs ''error'' of
                   Some v \<Rightarrow> Inr j
                 | None \<Rightarrow> Inl (ValueError (''status code '' @ str_int (status_code r)
                                               @ ''; '' @ content r)))
            | JArr xs \<Rightarrow>
                if JStr ''error'' \<in> set xs then Inr j
                else Inl (ValueError (''status code '' @ str_int (status_code r)
                                      @ ''; '' @ content r))
            | JStr t \<Rightarrow>
                if sublist ''error'' t then Inr j
                else Inl (ValueError (''status code '' @ str_int (status_code r)
                                      @ ''; '' @ content r))
            | _ \<Rightarrow> Inl TypeError)"
      by simp
  }
qed

lemma str_int_400: "str_int 400 = ''400''"
  by (simp add: str_int_def str_nat.simps digit_chars_def)

lemma str_int_500: "str_int 500 = ''500''"
  by (simp add: str_int_def str_nat.simps digit_chars_def)

text \<open>
  The rules at work on a stub: \<^verbatim>\<open>act\<close> and a two-element \<^verbatim>\<open>batch\<close> on a 400 with an error
  object, \<^verbatim>\<open>batch\<close> on a 500 with an empty body, \<^verbatim>\<open>act\<close> on a 500 whose object has no
  \<^verbatim>\<open>error\<close>.
\<close>

theorem act_batch_failure_witness:
  "received client0
     (batch (reply 400 body_error (Some (JObj [(''error'', JStr ''rate limited'')]))) client0
        [envelope (JNum 4) JNull, envelope (JNum 5) (JStr ''x'')])
     \<lparr>status_code = 400, content = body_error,
      decoded = Some (JObj [(''error'', JStr ''rate limited'')])\<rparr>
   \<and> fst (batch (reply 400 body_error (Some (JObj [(''error'', JStr ''rate limited'')]))) client0
            [envelope (JNum 4) JNull, envelope (JNum 5) (JStr ''x'')])
       = Inr (JObj [(''error'', JStr ''rate limited'')])
   \<and> fst (act (reply 400 body_error (Some (JObj [(''error'', JStr ''rate limited'')]))) client0
            (JNum 5) (JStr ''x''))
       = Inr (JObj [(''error'', JStr ''rate limited'')])
   \<and> fst (batch (reply 500 [] None) client0 [envelope (JNum 5) (JStr ''x'')])
       = Inl (ValueError ''status code 500'')
   \<and> fst (act (reply 500 body_seq (Some (JObj [(''seq'', JNum 5)]))) client0 (JNum 5) (JStr ''x''))
       = Inl (ValueError (''status code 500; '' @ body_seq))"
proof -
  let ?two = "[envelope (JNum 4) JNull, envelope (JNum 5) (JStr ''x'')]"
  let ?one = "[envelope (JNum 5) (JStr ''x'')]"
  let ?netA = "reply 400 body_error (Some (JObj [(''error'', JStr ''rate limited'')]))"
  let ?rA = "\<lparr>status_code = 400, content = body_error,
      decoded = Some (JObj [(''error'', JStr ''rate limited'')])\<rparr>"
  note t1 = act_batch_failure [of client0 ?netA "JNum 5" "JStr ''x''" ?rA ?two
      "batch ?netA client0 ?two"]
  have rec1: "received client0 (batch ?netA client0 ?two) ?rA"
    using t1 by (simp add: answers_def reply_def envelope_def)
  with t1 have 1: "fst (batch ?netA client0 ?two) = Inr (JObj [(''error'', JStr ''rate limited'')])"
    by (simp add: body_error_def)
  note t2 = act_batch_failure [of client0 ?netA "JNum 5" "JStr ''x''" ?rA ?two
      "act ?netA client0 (JNum 5) (JStr ''x'')"]
  have "received client0 (act ?netA client0 (JNum 5) (JStr ''x'')) ?rA"
    using t2 by (simp add: answers_def reply_def)
  with t2 have 2: "fst (act ?netA client0 (JNum 5) (JStr ''x''))
      = Inr (JObj [(''error'', JStr ''rate limited'')])"
    by (simp add: body_error_def)
  let ?netE = "reply 500 [] None"
  let ?rE = "\<lparr>status_code = 500, content = [], decoded = None\<rparr>"
  note t3 = act_batch_failure [of client0 ?netE "JNum 5" "JStr ''x''" ?rE ?one
      "batch ?netE client0 ?one"]
  have "received client0 (batch ?netE client0 ?one) ?rE"
    using t3 by (simp add: answers_def reply_def envelope_def)
  with t3 have 3: "fst (batch ?netE client0 ?one) = Inl (ValueError ''status code 500'')"
    by (simp add: str_int_500)
  let ?netS = "reply 500 body_seq (Some (JObj [(''seq'', JNum 5)]))"
  let ?rS = "\<lparr>status_code = 500, content = body_seq, decoded = Some (JObj [(''seq'', JNum 5)])\<rparr>"
  note t4 = act_batch_failure [of client0 ?netS "JNum 5" "JStr ''x''" ?rS ?one
      "act ?netS client0 (JNum 5) (JStr ''x'')"]
  have "received client0 (act ?netS client0 (JNum 5) (JStr ''x'')) ?rS"
    using t4 by (simp add: answers_def reply_def)
  with t4 have 4: "fst (act ?netS client0 (JNum 5) (JStr ''x''))
      = Inl (ValueError (''status code 500; '' @ body_seq))"
    by (simp add: body_seq_def str_int_500)
  from rec1 1 2 3 4 show ?thesis
    by simp
qed

text \<open>
  Where C2 as it is written fails: a 500 whose body is the JSON \<^verbatim>\<open>null\<close> has no key \<^verbatim>\<open>error\<close>,
  yet the exception is \<^verbatim>\<open>TypeError\<close>, not the \<^verbatim>\<open>ValueError\<close> with status and text; and a 500
  whose body is the JSON list \<^verbatim>\<open>["error"]\<close> has no key either, yet the list is returned and
  nothing is raised.
\<close>

theorem act_error_body_counterexample:
  "fst (act (reply 500 ''null'' (Some JNull)) client0 (JNum 5) (JStr ''x'')) = Inl TypeError
   \<and> fst (act (reply 500 ''null'' (Some JNull)) client0 (JNum 5) (JStr ''x''))
       \<noteq> Inl (ValueError (''status code 500; null''))
   \<and> fst (act (reply 500 body_error_list (Some (JArr [JStr ''error'']))) client0
            (JNum 5) (JStr ''x''))
       = Inr (JArr [JStr ''error''])"
  by (simp add: act_def post_act_def locked_send_def reply_def interpret_act_def res_json_def
        body_error_list_def)

section \<open>Facts about \<^verbatim>\<open>login\<close>, \<^verbatim>\<open>trial\<close> and the queries\<close>

lemma str_int_401: "str_int 401 = ''401''"
  by (simp add: str_int_def str_nat.simps digit_chars_def)

lemma str_int_300: "str_int 300 = ''300''"
  by (simp add: str_int_def str_nat.simps digit_chars_def)

lemma save_token_trace: "trace (snd (save_token rc)) = trace (snd rc)"
  by (auto simp: save_token_def set_bearer_token_def split: prod.splits sum.splits bool.splits)

lemma save_token_failed: "fst (save_token rc) = Inl e \<Longrightarrow> snd (save_token rc) = snd rc"
  by (auto simp: save_token_def split: prod.splits sum.splits bool.splits)

lemma received_post_req:
  "received c (post_req net c path body raise_error) r \<longleftrightarrow>
     fst (locked_send net c (post_request c path body)) = Inr r"
  by (simp add: received_def post_req_snd received_locked_send)

lemma received_get_req:
  "received c (get_req net c path raise_error) r \<longleftrightarrow>
     fst (locked_send net c (get_request c path)) = Inr r"
  by (simp add: received_def get_req_snd received_locked_send)

lemma received_save_token: "received c (save_token rc) r \<longleftrightarrow> received c rc r"
  by (simp add: received_def new_events_def save_token_trace)

lemma subscript_snd: "snd (subscript k rc) = snd rc"
  by (simp add: subscript_def split: prod.splits sum.splits)

lemma subscript_Inl: "fst rc = Inl e \<Longrightarrow> fst (subscript k rc) = Inl e"
  by (cases rc) (simp add: subscript_def)

lemma subscript_Inr: "fst rc = Inr v \<Longrightarrow> fst (subscript k rc) = py_getitem v k"
  by (cases rc) (simp add: subscript_def)

lemma received_subscript: "received c (subscript k rc) r \<longleftrightarrow> received c rc r"
  by (simp add: received_def subscript_snd)

text \<open>
  A response that \<^verbatim>\<open>login\<close> or \<^verbatim>\<open>trial\<close> receives is the one its \<^verbatim>\<open>post_req\<close> hands to
  \<^verbatim>\<open>_process_res\<close>, with \<^verbatim>\<open>raise_error\<close> at its default.
\<close>

lemma received_login_trial:
  assumes "call = login net c name secret \<or> call = trial net c"
      and "received c call r"
    shows "\<exists>path body. call = save_token (post_req net c path body (JBool True)) \<and>
             fst (post_req net c path body (JBool True)) = handle_req (JBool True) (Inr r)"
  using assms(1)
proof
  assume eq: "call = login net c name secret"
  with assms(2) have "fst (post_req net c ''/user/login''
        (JObj [(''name'', name), (''secret'', secret)]) (JBool True))
      = handle_req (JBool True) (Inr r)"
    by (simp add: login_def received_save_token received_post_req post_req_fst)
  with eq show ?thesis
    unfolding login_def by blast
next
  assume eq: "call = trial net c"
  with assms(2) have "fst (post_req net c ''/user/trial''
        (JObj [(''code'', JStr ''FREE_TRIAL_SPONSORED_BY_MJAPI_DiscordID_9ns4esyx'')]) (JBool True))
      = handle_req (JBool True) (Inr r)"
    by (simp add: trial_def received_save_token received_post_req post_req_fst)
  with eq show ?thesis
    unfolding trial_def by blast
qed

lemma received_reply_login:
  "received c (login (reply st b j) c n s) \<lparr>status_code = st, content = b, decoded = j\<rparr>"
  by (simp add: login_def received_save_token received_post_req fst_locked_send reply_def)

lemma received_reply_trial:
  "received c (trial (reply st b j) c) \<lparr>status_code = st, content = b, decoded = j\<rparr>"
  by (simp add: trial_def received_save_token received_post_req fst_locked_send reply_def)

lemma received_reply_get:
  "received c (get_req (reply st b j) c path flag) \<lparr>status_code = st, content = b, decoded = j\<rparr>"
  by (simp add: received_get_req fst_locked_send reply_def)

lemma handle_req_error_payload:
  assumes "\<not> ok r" and "content r \<noteq> []" and "decoded r = Some (JObj kvs)"
      and "map_of kvs ''error'' = Some m"
    shows "handle_req flag (Inr r) =
             (if truthy flag
              then Inl (RuntimeError (''Error in response '' @ str_int (status_code r)
                                      @ '': '' @ py_str m))
              else Inr (JObj kvs))"
  using assms by (simp add: handle_req_def process_res_def res_json_def)

lemma py_str_bad_secret:
  "py_str bad_secret =
     ''{'' @ [squote] @ ''error'' @ [squote] @ '': '' @ [squote] @ ''bad secret'' @ [squote]
     @ '', '' @ [squote] @ ''code'' @ [squote] @ '': 17}''"
  by (simp add: bad_secret_def repr_str_def repr_char_def squote_def dquote_def bslash_def
        str_int_def str_nat.simps digit_chars_def Let_def)

lemma client1_simps:
  "token client1 = JStr ''old''"
  "headers client1 = [(''Authorization'', ''Bearer old'')]"
  by (simp_all add: client1_def client0_def init_def set_temp_user_def set_bearer_token_def)

section \<open>Ill-formed batches and empty login responses\<close>

text \<open>
  C10.  For every non-empty list of actions whose last element is a dict without the key
  \<^verbatim>\<open>seq\<close>, \<^verbatim>\<open>batch(actions)\<close> raises \<^verbatim>\<open>KeyError('seq')\<close> with the client exactly as it was:
  the lock was not taken, no request was sent, token and headers are untouched.
\<close>

theorem batch_missing_seq:
  assumes "actions \<noteq> []"
      and "last actions = JObj kvs"
      and "map_of kvs ''seq'' = None"
    shows "batch net c actions = (Inl (KeyError ''seq''), c) \<and>
           new_events c (snd (batch net c actions)) = []"
  using assms by (simp add: batch_def)

theorem batch_missing_seq_witness:
  "batch unreachable client1 [envelope (JNum 4) JNull, JObj [(''data'', JStr ''x'')]]
     = (Inl (KeyError ''seq''), client1)"
  using batch_missing_seq [of "[envelope (JNum 4) JNull, JObj [(''data'', JStr ''x'')]]"
      "[(''data'', JStr ''x'')]" unreachable client1]
  by simp

text \<open>
  C9.  Whenever \<^verbatim>\<open>login\<close> or \<^verbatim>\<open>trial\<close> receives a successful response (\<^verbatim>\<open>res.ok\<close>) with an
  empty body, \<^verbatim>\<open>post_req\<close> returns \<^verbatim>\<open>None\<close>, the test \<^verbatim>\<open>'id' in res_json\<close> is made on
  \<^verbatim>\<open>None\<close> and the call raises \<^verbatim>\<open>TypeError\<close>; token and headers stay as they were.
\<close>

theorem login_trial_empty_body:
  assumes "call = login net c name secret \<or> call = trial net c"
      and "received c call r"
      and "ok r" and "content r = []"
    shows "fst call = Inl TypeError \<and> token (snd call) = token c \<and> headers (snd call) = headers c"
proof -
  from received_login_trial [OF assms(1,2)] obtain path body
    where call: "call = save_token (post_req net c path body (JBool True))"
      and res: "fst (post_req net c path body (JBool True)) = handle_req (JBool True) (Inr r)"
    by blast
  from assms(3,4) have "handle_req (JBool True) (Inr r) = Inr JNull"
    by (simp add: handle_req_def process_res_def)
  with res have "fst (post_req net c path body (JBool True)) = Inr JNull"
    by simp
  then have "save_token (post_req net c path body (JBool True))
               = (Inl TypeError, snd (post_req net c path body (JBool True)))"
    by (cases "post_req net c path body (JBool True)") (simp add: save_token_def)
  with call show ?thesis
    by (simp add: post_req_snd locked_send_frame)
qed

theorem login_trial_empty_body_witness:
  "received client1 (login (reply 200 [] None) client1 (JStr ''alice'') (JStr ''s3cr3t''))
     \<lparr>status_code = 200, content = [], decoded = None\<rparr>
   \<and> ok \<lparr>status_code = 200, content = [], decoded = None\<rparr>
   \<and> fst (login (reply 200 [] None) client1 (JStr ''alice'') (JStr ''s3cr3t'')) = Inl TypeError
   \<and> token (snd (login (reply 200 [] None) client1 (JStr ''alice'') (JStr ''s3cr3t''))) = JStr ''old''
   \<and> fst (trial (reply 200 [] None) client1) = Inl TypeError"
proof -
  let ?r = "\<lparr>status_code = 200, content = [], decoded = None\<rparr>"
  let ?l = "login (reply 200 [] None) client1 (JStr ''alice'') (JStr ''s3cr3t'')"
  let ?t = "trial (reply 200 [] None) client1"
  have okr: "ok ?r"
    by (simp add: ok_def)
  have "?l = ?l \<or> ?l = ?t"
    by simp
  from login_trial_empty_body [OF this received_reply_login okr]
  have 1: "fst ?l = Inl TypeError \<and> token (snd ?l) = JStr ''old''"
    by (simp add: client1_simps)
  have "?t = login (reply 200 [] None) client1 JNull JNull \<or> ?t = ?t"
    by simp
  from login_trial_empty_body [OF this received_reply_trial okr]
  have 2: "fst ?t = Inl TypeError"
    by simp
  from 1 2 okr received_reply_login show ?thesis
    by simp
qed

section \<open>Stopping the bot\<close>

text \<open>
  C4 says that \<^verbatim>\<open>stop_bot()\<close> never raises.  The call \<^verbatim>\<open>post_req(path, None)\<close> leaves
  \<^verbatim>\<open>raise_error\<close> at \<^verbatim>\<open>True\<close>: against a server that answers 500 with an error object,
  \<^verbatim>\<open>stop_bot\<close> is \<^verbatim>\<open>post_req\<close> in raising mode and raises the \<^verbatim>\<open>RuntimeError\<close> of
  \<^verbatim>\<open>_process_res\<close>; a timeout is re-raised as well.
\<close>

theorem stop_bot_raises:
  "stop_bot (reply 500 body_no_bot (Some no_bot)) client0 =
     post_req (reply 500 body_no_bot (Some no_bot)) client0 ''/mjai/stop'' JNull (JBool True)
   \<and> fst (stop_bot (reply 500 body_no_bot (Some no_bot)) client0)
       = Inl (RuntimeError ''Error in response 500: no bot'')
   \<and> fst (stop_bot unreachable client0) = Inl (RequestException ''timed out'')"
  by (simp add: stop_bot_def post_req_fst fst_locked_send reply_def unreachable_def handle_req_def
        process_res_def ok_def res_json_def body_no_bot_def no_bot_def str_int_500)

section \<open>The informational queries on an error payload\<close>

text \<open>
  C5, as the code has it.  Let a query receive a response with an error status (400 to 599,
  where \<^verbatim>\<open>res.ok\<close> is false) whose body is a JSON object with the key \<^verbatim>\<open>error\<close>.  Then
  \<^verbatim>\<open>get_user_info\<close> and \<^verbatim>\<open>list_models\<close>, which leave \<^verbatim>\<open>raise_error\<close> at its default, raise
  the \<^verbatim>\<open>RuntimeError\<close> "Error in response <status>: <error>"; \<^verbatim>\<open>get_limit\<close>, which passes
  \<^verbatim>\<open>None\<close> for \<^verbatim>\<open>raise_error\<close>, returns the error payload; and \<^verbatim>\<open>get_usage\<close>, which passes
  \<^verbatim>\<open>None\<close> too, raises no \<^verbatim>\<open>RuntimeError\<close>.
\<close>

theorem queries_on_error_payload:
  assumes "\<not> ok r" and "content r \<noteq> []" and "decoded r = Some (JObj kvs)"
      and "map_of kvs ''error'' = Some m"
    shows "(received c (get_user_info net c) r \<longrightarrow>
              fst (get_user_info net c) =
                Inl (RuntimeError (''Error in response '' @ str_int (status_code r)
                                   @ '': '' @ py_str m))) \<and>
           (received c (list_models net c) r \<longrightarrow>
              fst (list_models net c) =
                Inl (RuntimeError (''Error in response '' @ str_int (status_code r)
                                   @ '': '' @ py_str m))) \<and>
           (received c (get_limit net c) r \<longrightarrow> fst (get_limit net c) = Inr (JObj kvs)) \<and>
           (received c (get_usage net c) r \<longrightarrow>
              (\<forall>msg. fst (get_usage net c) \<noteq> Inl (RuntimeError msg)))"
proof -
  note h = handle_req_error_payload [OF assms]
  have 1: "received c (get_user_info net c) r \<longrightarrow>
              fst (get_user_info net c) =
                Inl (RuntimeError (''Error in response '' @ str_int (status_code r)
                                   @ '': '' @ py_str m))"
    by (simp add: get_user_info_def received_get_req get_req_fst h)
  have 2: "received c (list_models net c) r \<longrightarrow>
              fst (list_models net c) =
                Inl (RuntimeError (''Error in response '' @ str_int (status_code r)
                                   @ '': '' @ py_str m))"
    by (simp add: list_models_def received_subscript received_get_req get_req_fst h subscript_Inl)
  have 3: "received c (get_limit net c) r \<longrightarrow> fst (get_limit net c) = Inr (JObj kvs)"
    by (simp add: get_limit_def received_get_req get_req_fst h)
  have 4: "received c (get_usage net c) r \<longrightarrow>
              (\<forall>msg. fst (get_usage net c) \<noteq> Inl (RuntimeError msg))"
    by (auto simp: get_usage_def received_subscript received_get_req get_req_fst h subscript_Inr
          split: option.splits)
  from 1 2 3 4 show ?thesis by blast
qed

theorem queries_on_error_payload_witness:
  "\<not> ok \<lparr>status_code = 500, content = body_no_bot, decoded = Some no_bot\<rparr>
   \<and> received client0 (get_user_info (reply 500 body_no_bot (Some no_bot)) client0)
       \<lparr>status_code = 500, content = body_no_bot, decoded = Some no_bot\<rparr>
   \<and> fst (get_user_info (reply 500 body_no_bot (Some no_bot)) client0)
       = Inl (RuntimeError ''Error in response 500: no bot'')
   \<and> fst (list_models (reply 500 body_no_bot (Some no_bot)) client0)
       = Inl (RuntimeError ''Error in response 500: no bot'')
   \<and> fst (get_limit (reply 500 body_no_bot (Some no_bot)) client0) = Inr no_bot"
proof -
  let ?r = "\<lparr>status_code = 500, content = body_no_bot, decoded = Some no_bot\<rparr>"
  let ?net = "reply 500 body_no_bot (Some no_bot)"
  have a: "\<not> ok ?r" "content ?r \<noteq> []" "decoded ?r = Some (JObj [(''error'', JStr ''no bot'')])"
    "map_of [(''error'', JStr ''no bot'')] ''error'' = Some (JStr ''no bot'')"
    by (simp_all add: ok_def body_no_bot_def no_bot_def)
  have rec: "received client0 (get_user_info ?net client0) ?r"
    "received client0 (list_models ?net client0) ?r"
    "received client0 (get_limit ?net client0) ?r"
    by (simp_all add: get_user_info_def list_models_def get_limit_def received_subscript
          received_reply_get)
  from queries_on_error_payload [OF a, of client0 ?net] rec
  have "fst (get_user_info ?net client0) = Inl (RuntimeError ''Error in response 500: no bot'')"
    "fst (list_models ?net client0) = Inl (RuntimeError ''Error in response 500: no bot'')"
    "fst (get_limit ?net client0) = Inr no_bot"
    by (simp_all add: str_int_500 no_bot_def)
  with a(1) rec(1) show ?thesis
    by simp
qed

text \<open>
  Where C5 as it is written fails: on a 500 with an error object \<^verbatim>\<open>get_limit\<close> returns the
  error payload and \<^verbatim>\<open>get_usage\<close> raises \<^verbatim>\<open>KeyError('used')\<close>, neither raises the
  \<^verbatim>\<open>RuntimeError\<close>; and on a status that is not 2xx but below 400 (here 300), \<^verbatim>\<open>res.ok\<close> is
  true and \<^verbatim>\<open>get_user_info\<close> returns the error payload too.
\<close>

theorem queries_raise_counterexample:
  "fst (get_limit (reply 500 body_no_bot (Some no_bot)) client0) = Inr no_bot
   \<and> fst (get_usage (reply 500 body_no_bot (Some no_bot)) client0) = Inl (KeyError ''used'')
   \<and> fst (get_user_info (reply 300 body_no_bot (Some no_bot)) client0) = Inr no_bot"
  by (simp add: get_limit_def get_usage_def get_user_info_def subscript_def get_req_def
        locked_send_def reply_def handle_req_def process_res_def ok_def res_json_def
        body_no_bot_def no_bot_def)

section \<open>A login that does not yield a token\<close>




section \<open>What every call does to the trace and to the credentials\<close>

lemma round_trip_Nil [simp]: "round_trip c []"
  by (simp add: round_trip_def)

lemma locked_send_trace:
  "\<exists>ev. trace (snd (locked_send net c rq)) = trace c @ [Acquire, Send rq, ev, Release] \<and> is_reply ev"
  by (auto simp: locked_send_def Let_def split: sum.splits)

lemma set_bearer_token_trace [simp]: "trace (set_bearer_token c tok) = trace c"
  by (simp add: set_bearer_token_def)

lemma post_request_headers [simp]: "req_headers (post_request c path body) = headers c"
  by (simp add: post_request_def)

lemma get_request_headers [simp]: "req_headers (get_request c path) = headers c"
  by (simp add: get_request_def)

lemma run_call_trace:
  "\<exists>evs. trace (snd (run_call net c x)) = trace c @ evs \<and> round_trip c evs"
proof -
  have post: "\<And>path body. \<exists>evs. trace (snd (locked_send net c (post_request c path body))) = trace c @ evs \<and> round_trip c evs"
    using locked_send_trace [of net c] unfolding round_trip_def
    by (metis post_request_headers)
  have get: "\<And>path. \<exists>evs. trace (snd (locked_send net c (get_request c path))) = trace c @ evs \<and> round_trip c evs"
    using locked_send_trace [of net c] unfolding round_trip_def
    by (metis get_request_headers)
  have nothing: "\<exists>evs. trace c = trace c @ evs \<and> round_trip c evs"
    by simp
  show ?thesis
  proof (cases x)
    case (Batch actions)
    then show ?thesis
      using post nothing
      by (auto simp: batch_def post_act_snd split: sum.splits)
  qed (use post get nothing in \<open>simp_all add: register_def login_def trial_def set_temp_user_def
        get_user_info_def logout_def list_models_def get_usage_def get_limit_def start_bot_def
        act_def stop_bot_def post_req_snd get_req_snd post_act_snd save_token_trace subscript_snd\<close>)
qed

lemma run_call_events: "trace (snd (run_call net c x)) = trace c @ call_events net c x"
  using run_call_trace [of net c x] by (auto simp: call_events_def new_events_def)

lemma call_events_round_trip: "round_trip c (call_events net c x)"
  using run_call_trace [of net c x] by (auto simp: call_events_def new_events_def)

lemma run_call_frame:
  assumes "\<not> sets_credentials x"
  shows "headers (snd (run_call net c x)) = headers c \<and> token (snd (run_call net c x)) = token c"
  using assms
  by (cases x)
     (auto simp: register_def get_user_info_def logout_def list_models_def get_usage_def
        get_limit_def start_bot_def act_def stop_bot_def batch_def post_req_snd get_req_snd
        post_act_snd subscript_snd locked_send_frame split: sum.splits)

lemma new_events_append:
  "trace c1 = trace c @ evs \<Longrightarrow> trace c2 = trace c1 @ evs' \<Longrightarrow>
     new_events c c2 = evs @ evs'"
  by (simp add: new_events_def)

lemma run_calls_trace: "\<exists>evs. trace (run_calls net c xs) = trace c @ evs"
proof (induction xs arbitrary: c)
  case Nil
  show ?case by simp
next
  case (Cons x xs)
  from Cons.IH [of "snd (run_call net c x)"] show ?case
    by (auto simp: run_call_events)
qed

lemma run_calls_headers:
  assumes "\<forall>x\<in>set xs. \<not> sets_credentials x"
      and "Send rq \<in> set (new_events c (run_calls net c xs))"
    shows "req_headers rq = headers c"
  using assms
proof (induction xs arbitrary: c)
  case Nil
  then show ?case by simp
next
  case (Cons x xs)
  let ?c1 = "snd (run_call net c x)"
  obtain evs' where t2: "trace (run_calls net ?c1 xs) = trace ?c1 @ evs'"
    using run_calls_trace by blast
  have t1: "trace ?c1 = trace c @ call_events net c x"
    by (rule run_call_events)
  from t1 t2 have split: "new_events c (run_calls net c (x # xs)) = call_events net c x @ evs'"
    by (simp add: new_events_def)
  from t2 have later: "new_events ?c1 (run_calls net ?c1 xs) = evs'"
    by (simp add: new_events_def)
  from Cons.prems have frame: "headers ?c1 = headers c"
    by (simp add: run_call_frame)
  from Cons.prems(2) split consider "Send rq \<in> set (call_events net c x)" | "Send rq \<in> set evs'"
    by auto
  then show ?case
  proof cases
    case 1
    with call_events_round_trip [of c net x] show ?thesis
      by (auto simp: round_trip_def)
  next
    case 2
    with later Cons.IH [of ?c1] Cons.prems(1) frame show ?thesis
      by simp
  qed
qed


lemma save_token_id:
  assumes "fst rc = Inr (JObj kvs)" and "map_of kvs ''id'' = Some v"
  shows "save_token rc = (Inr JNull, set_bearer_token ((snd rc)\<lparr>token := v\<rparr>) v)"
  using assms by (cases rc) (simp add: save_token_def)

lemma set_bearer_token_simps:
  "token (set_bearer_token c tok) = tok"
  "map_of (headers (set_bearer_token c tok)) ''Authorization'' = Some (''Bearer '' @ py_str tok)"
  by (simp_all add: set_bearer_token_def update_conv')

section \<open>A login that yields a token\<close>

lemma run_call_keeps:
  assumes "\<not> sets_credentials_now net c x"
  shows "headers (snd (run_call net c x)) = headers c \<and> token (snd (run_call net c x)) = token c"
proof (cases "sets_credentials x")
  case False
  then show ?thesis
    by (rule run_call_frame)
next
  case True
  with assms obtain e where failed: "fst (run_call net c x) = Inl e"
    by (auto simp: sets_credentials_now_def split: sum.splits)
  from True show ?thesis
  proof (cases x)
    case (Login name secret)
    with failed show ?thesis
      by (simp add: login_def save_token_failed post_req_snd locked_send_frame)
  next
    case Trial
    with failed show ?thesis
      by (simp add: trial_def save_token_failed post_req_snd locked_send_frame)
  next
    case (SetTempUser tok)
    with failed show ?thesis by simp
  next
    case (SetBearerToken tok)
    with failed show ?thesis by simp
  qed simp_all
qed

lemma credentials_kept_headers:
  "credentials_kept net c xs \<Longrightarrow>
     headers (run_calls net c xs) = headers c \<and> token (run_calls net c xs) = token c"
proof (induction xs arbitrary: c)
  case Nil
  show ?case by simp
next
  case (Cons x xs)
  then show ?case
    by (simp add: run_call_keeps)
qed

lemma call_events_headers:
  "Send rq \<in> set (call_events net c x) \<Longrightarrow> req_headers rq = headers c"
  using call_events_round_trip [of c net x] by (auto simp: round_trip_def)

text \<open>
  C6, as the code has it.  Whenever \<^verbatim>\<open>login(name, secret)\<close> receives a successful response
  (\<^verbatim>\<open>res.ok\<close>: a status outside 400 to 599) whose body is a JSON object with the key \<^verbatim>\<open>id\<close>,
  the call returns, the token is the value under \<^verbatim>\<open>id\<close> and the header \<^verbatim>\<open>Authorization\<close> is
  "Bearer " followed by \<^verbatim>\<open>str\<close> of that value.  From then on, after any calls none of which
  wrote the credentials (\<^verbatim>\<open>set_temp_user\<close> and \<^verbatim>\<open>set_bearer_token\<close> write them, \<^verbatim>\<open>login\<close> and
  \<^verbatim>\<open>trial\<close> write them when they return and not when they raise), token and header are
  still these, and the request that the next call sends, whatever call it is, GET, POST or
  action query, a new \<^verbatim>\<open>login\<close> included, carries that header.
\<close>

theorem login_installs_token:
  assumes "received c (login net c name secret) r"
      and "ok r" and "content r \<noteq> []"
      and "decoded r = Some (JObj kvs)" and "map_of kvs ''id'' = Some v"
    shows "fst (login net c name secret) = Inr JNull \<and>
           token (snd (login net c name secret)) = v \<and>
           map_of (headers (snd (login net c name secret))) ''Authorization''
             = Some (''Bearer '' @ py_str v) \<and>
           (\<forall>net' xs. credentials_kept net' (snd (login net c name secret)) xs \<longrightarrow>
              token (run_calls net' (snd (login net c name secret)) xs) = v \<and>
              map_of (headers (run_calls net' (snd (login net c name secret)) xs)) ''Authorization''
                = Some (''Bearer '' @ py_str v) \<and>
              (\<forall>x rq. Send rq \<in> set (call_events net'
                                        (run_calls net' (snd (login net c name secret)) xs) x) \<longrightarrow>
                 map_of (req_headers rq) ''Authorization'' = Some (''Bearer '' @ py_str v))) \<and>
           (\<forall>net' xs rq.
              (\<forall>x\<in>set xs. \<not> sets_credentials x) \<and>
              Send rq \<in> set (new_events (snd (login net c name secret))
                               (run_calls net' (snd (login net c name secret)) xs)) \<longrightarrow>
              map_of (req_headers rq) ''Authorization'' = Some (''Bearer '' @ py_str v))"
proof -
  let ?l = "login net c name secret"
  have "?l = ?l \<or> ?l = trial net c"
    by simp
  from received_login_trial [OF this assms(1)] obtain path body
    where call: "?l = save_token (post_req net c path body (JBool True))"
      and res: "fst (post_req net c path body (JBool True)) = handle_req (JBool True) (Inr r)"
    by blast
  from assms(2-4) have "handle_req (JBool True) (Inr r) = Inr (JObj kvs)"
    by (simp add: handle_req_def process_res_def res_json_def)
  with res have "fst (post_req net c path body (JBool True)) = Inr (JObj kvs)"
    by simp
  from save_token_id [OF this assms(5)] call
  have eq: "?l = (Inr JNull,
              set_bearer_token ((snd (post_req net c path body (JBool True)))\<lparr>token := v\<rparr>) v)"
    by simp
  then have 1: "fst ?l = Inr JNull" and 2: "token (snd ?l) = v"
    and 3: "map_of (headers (snd ?l)) ''Authorization'' = Some (''Bearer '' @ py_str v)"
    by (simp_all add: set_bearer_token_simps)
  have 4: "token (run_calls net' (snd ?l) xs) = v \<and>
           map_of (headers (run_calls net' (snd ?l) xs)) ''Authorization''
             = Some (''Bearer '' @ py_str v) \<and>
           (\<forall>x rq. Send rq \<in> set (call_events net' (run_calls net' (snd ?l) xs) x) \<longrightarrow>
              map_of (req_headers rq) ''Authorization'' = Some (''Bearer '' @ py_str v))"
    if kept: "credentials_kept net' (snd ?l) xs" for net' xs
  proof -
    from credentials_kept_headers [OF kept] 2 3
    have same: "token (run_calls net' (snd ?l) xs) = v"
      "map_of (headers (run_calls net' (snd ?l) xs)) ''Authorization''
         = Some (''Bearer '' @ py_str v)"
      by simp_all
    have "map_of (req_headers rq) ''Authorization'' = Some (''Bearer '' @ py_str v)"
      if "Send rq \<in> set (call_events net' (run_calls net' (snd ?l) xs) x)" for x rq
      using call_events_headers [OF that] same(2) by simp
    with same show ?thesis
      by blast
  qed
  have 5: "\<forall>net' xs rq.
              (\<forall>x\<in>set xs. \<not> sets_credentials x) \<and>
              Send rq \<in> set (new_events (snd ?l) (run_calls net' (snd ?l) xs)) \<longrightarrow>
              map_of (req_headers rq) ''Authorization'' = Some (''Bearer '' @ py_str v)"
    using run_calls_headers [of _ _ "snd ?l"] 3 by auto
  from 1 2 3 4 5 show ?thesis
    by blast
qed

lemma py_str_tok123: "py_str (JStr ''tok123'') = ''tok123''"
  by simp

text \<open>
  \<^verbatim>\<open>login\<close> against a stub that answers 200 with \<^verbatim>\<open>{"id": "tok123"}\<close>.  Afterwards, against
  a server that answers 401 with an error object: a second \<^verbatim>\<open>login\<close> and \<^verbatim>\<open>get_user_info\<close>
  both raise, the credentials are kept, and the request that \<^verbatim>\<open>act\<close> then sends carries
  "Bearer tok123".
\<close>

theorem login_installs_token_witness:
  "received client0
     (login (reply 200 body_token (Some tok123)) client0 (JStr ''alice'') (JStr ''s3cr3t''))
     \<lparr>status_code = 200, content = body_token, decoded = Some tok123\<rparr>
   \<and> token (snd (login (reply 200 body_token (Some tok123)) client0 (JStr ''alice'') (JStr ''s3cr3t'')))
       = JStr ''tok123''
   \<and> map_of (headers (snd (login (reply 200 body_token (Some tok123)) client0
                              (JStr ''alice'') (JStr ''s3cr3t'')))) ''Authorization''
       = Some ''Bearer tok123''
   \<and> credentials_kept (reply 401 body_bad_secret (Some bad_secret))
        (snd (login (reply 200 body_token (Some tok123)) client0 (JStr ''alice'') (JStr ''s3cr3t'')))
        [Login (JStr ''bob'') (JStr ''wrong''), GetUserInfo]
   \<and> Send (post_request
             (run_calls (reply 401 body_bad_secret (Some bad_secret))
                (snd (login (reply 200 body_token (Some tok123)) client0
                        (JStr ''alice'') (JStr ''s3cr3t'')))
                [Login (JStr ''bob'') (JStr ''wrong''), GetUserInfo])
             ''/mjai/act'' (envelope (JNum 1) JNull))
       \<in> set (call_events (reply 401 body_bad_secret (Some bad_secret))
                (run_calls (reply 401 body_bad_secret (Some bad_secret))
                   (snd (login (reply 200 body_token (Some tok123)) client0
                           (JStr ''alice'') (JStr ''s3cr3t'')))
                   [Login (JStr ''bob'') (JStr ''wrong''), GetUserInfo])
                (Act (JNum 1) JNull))
   \<and> map_of (req_headers (post_request
               (run_calls (reply 401 body_bad_secret (Some bad_secret))
                  (snd (login (reply 200 body_token (Some tok123)) client0
                          (JStr ''alice'') (JStr ''s3cr3t'')))
                  [Login (JStr ''bob'') (JStr ''wrong''), GetUserInfo])
               ''/mjai/act'' (envelope (JNum 1) JNull))) ''Authorization''
       = Some ''Bearer tok123''"
proof -
  let ?net = "reply 200 body_token (Some tok123)"
  let ?bad = "reply 401 body_bad_secret (Some bad_secret)"
  let ?r = "\<lparr>status_code = 200, content = body_token, decoded = Some tok123\<rparr>"
  let ?c = "snd (login ?net client0 (JStr ''alice'') (JStr ''s3cr3t''))"
  let ?xs = "[Login (JStr ''bob'') (JStr ''wrong''), GetUserInfo]"
  let ?c2 = "run_calls ?bad ?c ?xs"
  let ?rq = "post_request ?c2 ''/mjai/act'' (envelope (JNum 1) JNull)"
  have rec: "received client0 (login ?net client0 (JStr ''alice'') (JStr ''s3cr3t'')) ?r"
    by (rule received_reply_login)
  have a: "ok ?r" "content ?r \<noteq> []" "decoded ?r = Some (JObj [(''id'', JStr ''tok123'')])"
    "map_of [(''id'', JStr ''tok123'')] ''id'' = Some (JStr ''tok123'')"
    by (simp_all add: ok_def body_token_def tok123_def)
  note t = login_installs_token [OF rec a]
  have relogin: "fst (login ?bad k n s) = Inl (RuntimeError ''Error in response 401: bad secret'')"
    for k n s
    by (simp add: login_def post_req_def locked_send_def reply_def handle_req_def process_res_def
          ok_def res_json_def body_bad_secret_def bad_secret_def str_int_401 save_token_def)
  have kept: "credentials_kept ?bad ?c ?xs"
    by (simp add: sets_credentials_now_def relogin)
  have sent: "Send ?rq \<in> set (call_events ?bad ?c2 (Act (JNum 1) JNull))"
    by (simp add: call_events_def act_def post_act_snd new_events_locked_send envelope_def)
  from t kept sent have "map_of (req_headers ?rq) ''Authorization''
        = Some (''Bearer '' @ py_str (JStr ''tok123''))"
    by blast
  with t rec kept sent show ?thesis
    by (simp add: py_str_tok123)
qed

text \<open>
  Where C6 as it is written fails: the response JSON has an \<^verbatim>\<open>id\<close>, but it comes with the
  status 401.  \<^verbatim>\<open>_process_res\<close> raises before \<^verbatim>\<open>login\<close> looks for the \<^verbatim>\<open>id\<close>; no token is
  set and no header is added.
\<close>

theorem login_id_error_status_counterexample:
  "fst (login (reply 401 body_token (Some tok123)) client0 (JStr ''alice'') (JStr ''s3cr3t''))
     = Inl (RuntimeError (''Unexpected API response 401: '' @ body_token))
   \<and> token (snd (login (reply 401 body_token (Some tok123)) client0 (JStr ''alice'') (JStr ''s3cr3t'')))
     = JNull
   \<and> headers (snd (login (reply 401 body_token (Some tok123)) client0 (JStr ''alice'') (JStr ''s3cr3t'')))
     = []"
  by (simp add: login_def post_req_def locked_send_def reply_def handle_req_def process_res_def
        ok_def res_json_def body_token_def tok123_def str_int_401 save_token_def client0_def init_def)

section \<open>Batches\<close>

text \<open>
  C8, as the code has it.  \<^verbatim>\<open>batch([])\<close> returns \<^verbatim>\<open>None\<close> and leaves the client as it was:
  nothing is sent.  For a non-empty list whose last element has a \<^verbatim>\<open>seq\<close> that can be read,
  \<^verbatim>\<open>batch\<close> is \<^verbatim>\<open>_post_act\<close> on the batch endpoint with that \<^verbatim>\<open>seq\<close>: the list is posted in one
  round trip under the lock; the response the transport gives is received and the result is
  what the response rules of \<^verbatim>\<open>_post_act\<close> make of it, an exception of the transport is
  raised as it is; and the \<^verbatim>\<open>seq\<close> handed over is not used, the result is the same for any
  other.
\<close>

theorem batch_empty_or_posts:
  "batch net c [] = (Inr JNull, c) \<and>
   (actions \<noteq> [] \<and> py_getitem (last actions) ''seq'' = Inr s \<longrightarrow>
      batch net c actions = post_act net c ''/mjai/batch'' s (JArr actions) \<and>
      (\<exists>ev. new_events c (snd (batch net c actions))
               = [Acquire, Send (post_request c ''/mjai/batch'' (JArr actions)), ev, Release]
             \<and> is_reply ev) \<and>
      (\<forall>r. answers net c (post_request c ''/mjai/batch'' (JArr actions)) r \<longrightarrow>
             received c (batch net c actions) r \<and>
             fst (batch net c actions) = interpret_act r) \<and>
      (\<forall>r. received c (batch net c actions) r \<longrightarrow> fst (batch net c actions) = interpret_act r) \<and>
      (\<forall>d. net (trace c @ [Acquire, Send (post_request c ''/mjai/batch'' (JArr actions))]) = Inl d
             \<longrightarrow> fst (batch net c actions) = Inl (RequestException d)) \<and>
      (\<forall>s'. post_act net c ''/mjai/batch'' s' (JArr actions) = batch net c actions))"
proof -
  let ?rq = "post_request c ''/mjai/batch'' (JArr actions)"
  have 1: "batch net c [] = (Inr JNull, c)"
    by (simp add: batch_def)
  have 2: "batch net c actions = post_act net c ''/mjai/batch'' s (JArr actions)"
    if "actions \<noteq> []" "py_getitem (last actions) ''seq'' = Inr s"
    using that by (simp add: batch_def)
  have 3: "\<exists>ev. new_events c (snd (post_act net c ''/mjai/batch'' s (JArr actions)))
               = [Acquire, Send ?rq, ev, Release] \<and> is_reply ev"
    by (auto simp: post_act_snd new_events_locked_send split: sum.splits)
  have 4: "post_act net c ''/mjai/batch'' s' (JArr actions)
             = post_act net c ''/mjai/batch'' s (JArr actions)" for s'
    by (simp add: post_act_def)
  have 5: "fst (batch net c actions) = interpret_act r" if "received c (batch net c actions) r" for r
    using received_act_batch [of "batch net c actions" net c JNull JNull actions r] that
    by simp
  have 6: "received c (batch net c actions) r"
    if "actions \<noteq> []" "py_getitem (last actions) ''seq'' = Inr s" "answers net c ?rq r" for r
    using that by (auto simp: received_batch_iff)
  have 7: "fst (post_act net c ''/mjai/batch'' s (JArr actions)) = Inl (RequestException d)"
    if "net (trace c @ [Acquire, Send ?rq]) = Inl d" for d
    using that by (simp add: post_act_fst fst_locked_send)
  from 1 2 3 4 5 6 7 show ?thesis
    by (auto simp del: last.simps)
qed

text \<open>
  A batch of two envelopes against a stub that answers 200 with a reaction: the list is
  posted with the \<^verbatim>\<open>seq\<close> of the second envelope, the response is received and the
  reaction is the result.
\<close>

theorem batch_empty_or_posts_witness:
  "py_getitem (last [envelope (JNum 4) JNull, envelope (JNum 5) (JStr ''x'')]) ''seq'' = Inr (JNum 5)
   \<and> batch (reply 200 body_act (Some (JObj [(''act'', dahai)]))) client0
        [envelope (JNum 4) JNull, envelope (JNum 5) (JStr ''x'')]
       = post_act (reply 200 body_act (Some (JObj [(''act'', dahai)]))) client0 ''/mjai/batch''
           (JNum 5) (JArr [envelope (JNum 4) JNull, envelope (JNum 5) (JStr ''x'')])
   \<and> received client0
        (batch (reply 200 body_act (Some (JObj [(''act'', dahai)]))) client0
           [envelope (JNum 4) JNull, envelope (JNum 5) (JStr ''x'')])
        \<lparr>status_code = 200, content = body_act, decoded = Some (JObj [(''act'', dahai)])\<rparr>
   \<and> fst (batch (reply 200 body_act (Some (JObj [(''act'', dahai)]))) client0
            [envelope (JNum 4) JNull, envelope (JNum 5) (JStr ''x'')])
       = Inr dahai
   \<and> fst (batch unreachable client0 [envelope (JNum 4) JNull, envelope (JNum 5) (JStr ''x'')])
       = Inl (RequestException ''timed out'')
   \<and> batch unreachable client0 [] = (Inr JNull, client0)"
proof -
  let ?two = "[envelope (JNum 4) JNull, envelope (JNum 5) (JStr ''x'')]"
  let ?net = "reply 200 body_act (Some (JObj [(''act'', dahai)]))"
  let ?r = "\<lparr>status_code = 200, content = body_act, decoded = Some (JObj [(''act'', dahai)])\<rparr>"
  have seq: "?two \<noteq> [] \<and> py_getitem (last ?two) ''seq'' = Inr (JNum 5)"
    by (simp add: envelope_def)
  have ans: "answers ?net client0 (post_request client0 ''/mjai/batch'' (JArr ?two)) ?r"
    by (simp add: answers_def reply_def)
  have out: "unreachable (trace client0 @ [Acquire, Send (post_request client0 ''/mjai/batch'' (JArr ?two))])
      = Inl ''timed out''"
    by (simp add: unreachable_def)
  have val: "interpret_act ?r = Inr dahai"
    by (simp add: interpret_act_def res_json_def body_act_def)
  from batch_empty_or_posts [of ?net client0 ?two "JNum 5"] seq ans
  have a: "batch ?net client0 ?two = post_act ?net client0 ''/mjai/batch'' (JNum 5) (JArr ?two)"
    and b: "received client0 (batch ?net client0 ?two) ?r"
    and c: "fst (batch ?net client0 ?two) = interpret_act ?r"
    by blast+
  from batch_empty_or_posts [of unreachable client0 ?two "JNum 5"] seq out
  have d: "fst (batch unreachable client0 ?two) = Inl (RequestException ''timed out'')"
    by blast
  from batch_empty_or_posts [of unreachable client0 "[]" JNull]
  have e: "batch unreachable client0 [] = (Inr JNull, client0)"
    by blast
  from seq a b c d e val show ?thesis
    by simp
qed

text \<open>
  Where C8 as it is written fails.  A non-empty list whose last element has no \<^verbatim>\<open>seq\<close> is not
  posted: \<^verbatim>\<open>KeyError\<close>, and the client is as it was.  And the response is not matched against
  the \<^verbatim>\<open>seq\<close> of the last envelope: a response that names the sequence number 99 is taken as
  the reaction to a batch that ends with 5.
\<close>

theorem batch_posts_counterexample:
  "batch (reply 200 body_act (Some (JObj [(''act'', dahai)]))) client0
     [envelope (JNum 4) JNull, JObj [(''data'', JStr ''x'')]]
     = (Inl (KeyError ''seq''), client0)
   \<and> fst (batch (reply 200 body_seq_act (Some (JObj [(''seq'', JNum 99), (''act'', dahai)])))
            client0 [envelope (JNum 5) (JStr ''x'')])
     = Inr dahai"
  by (simp add: batch_def envelope_def post_act_def locked_send_def reply_def interpret_act_def
        res_json_def body_seq_act_def)

section \<open>One request at a time\<close>

lemma call_events_cases:
  "call_events net c x = [] \<or>
   (\<exists>rq ev. call_events net c x = [Acquire, Send rq, ev, Release] \<and> is_reply ev)"
  using call_events_round_trip [of c net x] by (auto simp: round_trip_def)

lemma api_program_cases:
  assumes "api_program p"
  shows "p = [] \<or>
         (\<exists>rq ev q. p = Acquire # Send rq # ev # Release # q \<and> is_reply ev \<and> api_program q)"
  using assms
proof (induction rule: api_program.induct)
  case finished
  show ?case by simp
next
  case (call p net c x)
  from call_events_cases [of net c x] show ?case
  proof
    assume "call_events net c x = []"
    with call.IH show ?thesis by simp
  next
    assume "\<exists>rq ev. call_events net c x = [Acquire, Send rq, ev, Release] \<and> is_reply ev"
    with call.hyps show ?thesis by auto
  qed
qed

lemma api_program_not_critical: "api_program p \<Longrightarrow> \<not> critical p"
  by (drule api_program_cases) (auto simp: critical_def)

lemma is_reply_not_lock: "is_reply ev \<Longrightarrow> ev \<noteq> Acquire \<and> ev \<noteq> Release \<and> (\<forall>rq. ev \<noteq> Send rq)"
  by (cases ev) auto

lemma in_flight_perform:
  assumes "todo s t = e # es"
  shows "in_flight (perform t s) t' = (if t' = t then (\<exists>rq. e = Send rq) else in_flight s t')"
  using assms by (cases e) (auto simp: in_flight_def perform_def)

lemma todo_perform:
  assumes "todo s t = e # es"
  shows "todo (perform t s) t' = (if t' = t then es else todo s t')"
  using assms by (simp add: perform_def)

lemma locked_perform:
  assumes "todo s t = e # es"
  shows "locked (perform t s) = (if e = Acquire then True else if e = Release then False else locked s)"
  using assms by (simp add: perform_def)

lemma invariant_initial: "initial s \<Longrightarrow> invariant s"
  by (auto simp: initial_def invariant_def wf_todo_def in_flight_def api_program_not_critical)

lemma invariant_perform:
  assumes inv: "invariant s" and can: "can_step s t"
  shows "invariant (perform t s)"
proof -
  from can obtain e es where todo: "todo s t = e # es" and free: "e \<noteq> Acquire \<or> \<not> locked s"
    by (auto simp: can_step_def split: list.splits)
  note simps = in_flight_perform [OF todo] todo_perform [OF todo] locked_perform [OF todo]
  from inv have wf: "\<And>u. wf_todo (todo s u)"
    and fl: "\<And>u. in_flight s u \<Longrightarrow> \<exists>ev q. todo s u = ev # Release # q \<and> is_reply ev"
    and uniq: "\<And>u u'. critical (todo s u) \<Longrightarrow> critical (todo s u') \<Longrightarrow> u = u'"
    and held: "\<And>u. critical (todo s u) \<Longrightarrow> locked s"
    by (auto simp: invariant_def)
  from wf [of t] todo consider
      (idle) rq ev q where "e = Acquire" "es = Send rq # ev # Release # q" "is_reply ev" "api_program q"
    | (send) rq ev q where "e = Send rq" "es = ev # Release # q" "is_reply ev" "api_program q"
    | (reply) q where "is_reply e" "es = Release # q" "api_program q"
    | (release) q where "e = Release" "es = q" "api_program q"
    unfolding wf_todo_def by (auto dest: api_program_cases)
  then show ?thesis
  proof cases
    case idle
    with free have unlocked: "\<not> locked s" by simp
    with held have nobody: "\<And>u. \<not> critical (todo s u)" by blast
    have "wf_todo es"
      using idle unfolding wf_todo_def by blast
    moreover have "critical es"
      using idle by (simp add: critical_def)
    ultimately show ?thesis
      unfolding invariant_def simps using wf fl nobody idle
      by auto
  next
    case send
    have "wf_todo es"
      using send unfolding wf_todo_def by blast
    moreover have "critical (todo s t)" "critical es"
      using send todo by (auto simp: critical_def dest: is_reply_not_lock)
    ultimately show ?thesis
      unfolding invariant_def simps using wf fl uniq held send
      by auto
  next
    case reply
    have "wf_todo es"
      using reply unfolding wf_todo_def by blast
    moreover have "critical (todo s t)" "critical es"
      using reply todo by (auto simp: critical_def dest: is_reply_not_lock)
    moreover have "e \<noteq> Acquire" "e \<noteq> Release" "\<And>rq. e \<noteq> Send rq"
      using reply(1) by (auto dest: is_reply_not_lock)
    ultimately show ?thesis
      unfolding invariant_def simps using wf fl uniq held
      by auto
  next
    case release
    have "wf_todo es"
      using release unfolding wf_todo_def by blast
    moreover have "critical (todo s t)"
      using release todo by (simp add: critical_def)
    moreover have "\<not> critical es"
      using release by (simp add: api_program_not_critical)
    ultimately show ?thesis
      unfolding invariant_def simps using wf fl uniq held release
      by auto
  qed
qed

lemma invariant_runs:
  assumes "runs s s'" and "invariant s"
  shows "invariant s'"
  using assms
proof (induction rule: runs.induct)
  case (start s)
  then show ?case by simp
next
  case (further s s' s'')
  then have "invariant s'" by simp
  with further.hyps(2) show ?case
    by (auto elim!: step.cases intro: invariant_perform)
qed

text \<open>
  C3.  Every call of the client, on the GET path, the POST path or the action query, does
  nothing with the connection or exactly this: take the lock, send one request, get a
  response or an exception back, release the lock.  And however the calls of any number of
  threads interleave, starting with the lock free, at no moment are the requests of two
  threads in flight.
\<close>

theorem one_request_in_flight:
  "(call_events net c x = [] \<or>
    (\<exists>rq ev. call_events net c x = [Acquire, Send rq, ev, Release] \<and> is_reply ev)) \<and>
   (initial s \<and> runs s s' \<and> in_flight s' t \<and> in_flight s' t' \<longrightarrow> t = t')"
proof
  show "call_events net c x = [] \<or>
    (\<exists>rq ev. call_events net c x = [Acquire, Send rq, ev, Release] \<and> is_reply ev)"
    by (rule call_events_cases)
next
  show "initial s \<and> runs s s' \<and> in_flight s' t \<and> in_flight s' t' \<longrightarrow> t = t'"
  proof
    assume h: "initial s \<and> runs s s' \<and> in_flight s' t \<and> in_flight s' t'"
    then have inv: "invariant s'"
      using invariant_runs invariant_initial by blast
    have crit: "critical (todo s' u)" if "in_flight s' u" for u
    proof -
      from inv that obtain ev q where "todo s' u = ev # Release # q" "is_reply ev"
        unfolding invariant_def by blast
      then show ?thesis
        by (auto simp: critical_def dest: is_reply_not_lock)
    qed
    from h have "critical (todo s' t)" "critical (todo s' t')"
      by (simp_all add: crit)
    with inv show "t = t'"
      unfolding invariant_def by blast
  qed
qed


lemma todo_two_threads:
  "todo two_threads 0 =
     [Acquire, Send (post_request client0 ''/mjai/act'' (envelope (JNum 1) JNull)),
      Recv \<lparr>status_code = 200, content = [], decoded = None\<rparr>, Release]"
  "todo two_threads 1 = [Acquire, Send (get_request client0 ''/user''), Failed ''timed out'', Release]"
  "todo two_threads (Suc 0) =
     [Acquire, Send (get_request client0 ''/user''), Failed ''timed out'', Release]"
  by (simp_all add: two_threads_def call_events_def new_events_def act_def post_act_def
        get_user_info_def get_req_def locked_send_def reply_def unreachable_def envelope_def)

lemma initial_two_threads: "initial two_threads"
proof -
  have "api_program (call_events net c x @ [])" for net c x
    by (intro api_program.intros)
  then have "api_program (call_events net c x)" for net c x
    by simp
  then show ?thesis
    by (simp add: initial_def two_threads_def api_program.finished)
qed

text \<open>
  Thread 0 takes the lock and sends its request.  Now its request is in flight, the request
  of thread 1 is not, and thread 1 cannot move: it waits for the lock.
\<close>

theorem one_request_in_flight_witness:
  "initial two_threads
   \<and> runs two_threads (perform 0 (perform 0 two_threads))
   \<and> in_flight (perform 0 (perform 0 two_threads)) 0
   \<and> \<not> in_flight (perform 0 (perform 0 two_threads)) 1
   \<and> \<not> can_step (perform 0 (perform 0 two_threads)) 1"
proof -
  let ?s1 = "perform 0 two_threads"
  let ?s2 = "perform 0 ?s1"
  have c0: "can_step two_threads 0"
    by (simp add: can_step_def todo_two_threads) (simp add: two_threads_def)
  have t1: "todo ?s1 0 = [Send (post_request client0 ''/mjai/act'' (envelope (JNum 1) JNull)),
      Recv \<lparr>status_code = 200, content = [], decoded = None\<rparr>, Release]"
    by (simp add: todo_perform [OF todo_two_threads(1)])
  have c1: "can_step ?s1 0"
    by (simp add: can_step_def t1)
  have "runs two_threads ?s1"
    by (rule runs.further [OF runs.start step.intros [OF c0]])
  then have run: "runs two_threads ?s2"
    by (rule runs.further [OF _ step.intros [OF c1]])
  have fl: "in_flight ?s2 0"
    by (simp add: in_flight_perform [OF t1])
  have "todo ?s2 (Suc 0) =
      [Acquire, Send (get_request client0 ''/user''), Failed ''timed out'', Release]"
    by (simp add: todo_perform [OF t1] todo_perform [OF todo_two_threads(1)] todo_two_threads(3))
  moreover have "locked ?s2"
    by (simp add: locked_perform [OF t1] locked_perform [OF todo_two_threads(1)])
  ultimately have blocked: "\<not> can_step ?s2 1"
    by (simp add: can_step_def)
  from one_request_in_flight [of _ _ _ two_threads ?s2 0 1] initial_two_threads run fl
  have "\<not> in_flight ?s2 1"
    by auto
  with initial_two_threads run fl blocked show ?thesis
    by simp
qed

end
